theory Spec2Isabelle
  imports Complex_Main
begin

section \<open>JavaScript values used by the trading client\<close>

text \<open>
  A JavaScript number is a double: \<open>NaN\<close>, one of the two infinities, or a finite
  double, which is held as the rational it denotes. Every operation that JavaScript rounds
  (reading a literal, \<open>+\<close>, \<open>-\<close>, \<open>*\<close>, \<open>/\<close>) computes the exact
  rational result and rounds it to the nearest double, ties to even, with gradual underflow
  and overflow to an infinity. The sign of zero is not modelled. Strings are lists of bytes;
  the case conversions and the white space test cover ASCII.
\<close>

datatype number = NaN | Fin rat | PInf | NInf

fun isNaN :: "number \<Rightarrow> bool" where
  "isNaN NaN = True"
| "isNaN _ = False"

text \<open>The relational operators; every comparison with \<open>NaN\<close> is false.\<close>

fun js_lt :: "number \<Rightarrow> number \<Rightarrow> bool" where
  "js_lt NaN _ = False"
| "js_lt _ NaN = False"
| "js_lt (Fin a) (Fin b) = (a < b)"
| "js_lt (Fin a) PInf = True"
| "js_lt (Fin a) NInf = False"
| "js_lt PInf _ = False"
| "js_lt NInf NInf = False"
| "js_lt NInf _ = True"

fun js_le :: "number \<Rightarrow> number \<Rightarrow> bool" where
  "js_le NaN _ = False"
| "js_le _ NaN = False"
| "js_le (Fin a) (Fin b) = (a \<le> b)"
| "js_le (Fin a) PInf = True"
| "js_le (Fin a) NInf = False"
| "js_le PInf PInf = True"
| "js_le PInf _ = False"
| "js_le NInf _ = True"

definition js_ge :: "number \<Rightarrow> number \<Rightarrow> bool" where
  "js_ge a b = js_le b a"

subsection \<open>Rounding to a double\<close>

text \<open>The integer nearest to a rational, the even one of the two on a tie.\<close>

definition roundHalfEven :: "rat \<Rightarrow> int" where
  "roundHalfEven t =
     (let f = \<lfloor>t\<rfloor>; r = t - of_int f
      in if r < 1 / 2 then f else if 1 / 2 < r then f + 1 else if even f then f else f + 1)"

text \<open>
  The binary exponent of a positive rational \<open>x\<close>: the integer \<open>e\<close> with
  \<open>2^e \<le> x < 2^(e+1)\<close>, found by halving from 1 upwards and by doubling below 1.
\<close>

function log2_up :: "rat \<Rightarrow> int" where
  "log2_up x = (if x < 2 then 0 else log2_up (x / 2) + 1)"
  by pat_completeness auto
termination
proof (relation "measure (\<lambda>x. nat \<lfloor>x\<rfloor>)")
  fix x :: rat
  assume "\<not> x < 2"
  then have "2 \<le> x" by simp
  have "\<lfloor>x / 2\<rfloor> < \<lfloor>x\<rfloor>"
  proof -
    have "x / 2 < of_int \<lfloor>x\<rfloor>"
    proof -
      have "x < of_int \<lfloor>x\<rfloor> + 1" by linarith
      moreover have "(2::rat) \<le> of_int \<lfloor>x\<rfloor>" using \<open>2 \<le> x\<close> by (simp add: le_floor_iff)
      ultimately show ?thesis by linarith
    qed
    then show ?thesis by (simp add: floor_less_iff)
  qed
  moreover have "0 < \<lfloor>x\<rfloor>" using \<open>2 \<le> x\<close> by (simp add: less_floor_iff)
  ultimately show "(x / 2, x) \<in> measure (\<lambda>x. nat \<lfloor>x\<rfloor>)" by simp
qed simp

function log2_down :: "rat \<Rightarrow> int" where
  "log2_down x = (if x \<le> 0 \<or> 1 \<le> x then 0 else log2_down (2 * x) - 1)"
  by pat_completeness auto
termination
proof (relation "measure (\<lambda>x. nat \<lceil>1 / x\<rceil>)")
  fix x :: rat
  assume "\<not> (x \<le> 0 \<or> 1 \<le> x)"
  then have x: "0 < x" "x < 1" by auto
  define y where "y = 1 / x"
  have y: "1 < y" using x by (simp add: y_def)
  have "2 \<le> \<lceil>y\<rceil>" using y by (simp add: le_ceiling_iff)
  have "y / 2 \<le> of_int \<lceil>y\<rceil> - 1"
  proof -
    have "y \<le> of_int \<lceil>y\<rceil>" by linarith
    moreover have "(2::rat) \<le> of_int \<lceil>y\<rceil>" using \<open>2 \<le> \<lceil>y\<rceil>\<close> by linarith
    ultimately show ?thesis by linarith
  qed
  then have "\<lceil>y / 2\<rceil> \<le> \<lceil>y\<rceil> - 1" by (simp only: ceiling_le_iff of_int_diff of_int_1)
  then have "nat \<lceil>y / 2\<rceil> < nat \<lceil>y\<rceil>" using \<open>2 \<le> \<lceil>y\<rceil>\<close> by linarith
  moreover have "1 / (2 * x) = y / 2" by (simp add: y_def)
  ultimately have "nat \<lceil>1 / (2 * x)\<rceil> < nat \<lceil>1 / x\<rceil>"
    by (simp only: y_def)
  then show "(2 * x, x) \<in> measure (\<lambda>x. nat \<lceil>1 / x\<rceil>)"
    by (simp only: in_measure)
qed simp

declare log2_up.simps [simp del] log2_down.simps [simp del]

definition binaryExponent :: "rat \<Rightarrow> int" where
  "binaryExponent x = (if 1 \<le> x then log2_up x else log2_down x)"

text \<open>
  The spacing of the doubles around a positive \<open>x\<close>: 52 binary digits below its exponent,
  and \<open>2^-1074\<close> in the subnormal range.
\<close>

definition quantum :: "rat \<Rightarrow> rat" where
  "quantum x = 2 powi (max (binaryExponent x) (- 1022) - 52)"

definition roundPositive :: "rat \<Rightarrow> rat" where
  "roundPositive x = of_int (roundHalfEven (x / quantum x)) * quantum x"

text \<open>
  Rounding to the nearest double with the exponent unbounded above, and the number it
  stands for: a rounded value of magnitude \<open>2^1024\<close> or more is an infinity.
\<close>

definition roundDouble :: "rat \<Rightarrow> rat" where
  "roundDouble x = (if x = 0 then 0 else if 0 < x then roundPositive x else - roundPositive (- x))"

definition overflowThreshold :: rat where
  "overflowThreshold = 2 ^ 1024"

definition toNumber :: "rat \<Rightarrow> number" where
  "toNumber x =
     (let v = roundDouble x
      in if overflowThreshold \<le> v then PInf
         else if v \<le> - overflowThreshold then NInf
         else Fin v)"

subsection \<open>Arithmetic\<close>

text \<open>\<open>-\<close>, \<open>+\<close>, \<open>*\<close>, \<open>/\<close>, \<open>Math.abs\<close> and \<open>Math.floor\<close>.\<close>

fun js_neg :: "number \<Rightarrow> number" where
  "js_neg NaN = NaN"
| "js_neg (Fin a) = Fin (- a)"
| "js_neg PInf = NInf"
| "js_neg NInf = PInf"

fun js_add :: "number \<Rightarrow> number \<Rightarrow> number" where
  "js_add NaN _ = NaN"
| "js_add _ NaN = NaN"
| "js_add (Fin a) (Fin b) = toNumber (a + b)"
| "js_add (Fin a) PInf = PInf"
| "js_add (Fin a) NInf = NInf"
| "js_add PInf NInf = NaN"
| "js_add PInf _ = PInf"
| "js_add NInf PInf = NaN"
| "js_add NInf _ = NInf"

definition js_sub :: "number \<Rightarrow> number \<Rightarrow> number" where
  "js_sub a b = js_add a (js_neg b)"

definition inf_of_sign :: "bool \<Rightarrow> number" where
  "inf_of_sign negative = (if negative then NInf else PInf)"

fun js_mul :: "number \<Rightarrow> number \<Rightarrow> number" where
  "js_mul NaN _ = NaN"
| "js_mul _ NaN = NaN"
| "js_mul (Fin a) (Fin b) = toNumber (a * b)"
| "js_mul (Fin a) PInf = (if a = 0 then NaN else inf_of_sign (a < 0))"
| "js_mul (Fin a) NInf = (if a = 0 then NaN else inf_of_sign (0 < a))"
| "js_mul PInf (Fin b) = (if b = 0 then NaN else inf_of_sign (b < 0))"
| "js_mul NInf (Fin b) = (if b = 0 then NaN else inf_of_sign (0 < b))"
| "js_mul PInf PInf = PInf"
| "js_mul PInf NInf = NInf"
| "js_mul NInf PInf = NInf"
| "js_mul NInf NInf = PInf"

fun js_div :: "number \<Rightarrow> number \<Rightarrow> number" where
  "js_div NaN _ = NaN"
| "js_div _ NaN = NaN"
| "js_div (Fin a) (Fin b) =
     (if b = 0 then (if a = 0 then NaN else inf_of_sign (a < 0)) else toNumber (a / b))"
| "js_div (Fin a) _ = Fin 0"
| "js_div PInf (Fin b) = inf_of_sign (b < 0)"
| "js_div NInf (Fin b) = inf_of_sign (0 \<le> b)"
| "js_div _ _ = NaN"

fun js_abs :: "number \<Rightarrow> number" where
  "js_abs NaN = NaN"
| "js_abs (Fin a) = Fin \<bar>a\<bar>"
| "js_abs _ = PInf"

fun js_floor :: "number \<Rightarrow> number" where
  "js_floor (Fin a) = Fin (of_int \<lfloor>a\<rfloor>)"
| "js_floor x = x"

subsection \<open>Characters and strings\<close>

definition is_digit :: "char \<Rightarrow> bool" where
  "is_digit c = (48 \<le> (of_char c :: nat) \<and> (of_char c :: nat) \<le> 57)"

definition digit_val :: "char \<Rightarrow> nat" where
  "digit_val c = of_char c - 48"

definition digit_char :: "nat \<Rightarrow> char" where
  "digit_char n = char_of (48 + n)"

definition is_space :: "char \<Rightarrow> bool" where
  "is_space c = ((of_char c :: nat) = 32 \<or> (9 \<le> (of_char c :: nat) \<and> (of_char c :: nat) \<le> 13))"

definition upper_char :: "char \<Rightarrow> char" where
  "upper_char c =
     (if 97 \<le> (of_char c :: nat) \<and> (of_char c :: nat) \<le> 122
      then char_of ((of_char c :: nat) - 32) else c)"

definition lower_char :: "char \<Rightarrow> char" where
  "lower_char c =
     (if 65 \<le> (of_char c :: nat) \<and> (of_char c :: nat) \<le> 90
      then char_of ((of_char c :: nat) + 32) else c)"

definition toUpperCase :: "string \<Rightarrow> string" where
  "toUpperCase s = map upper_char s"

definition toLowerCase :: "string \<Rightarrow> string" where
  "toLowerCase s = map lower_char s"

text \<open>The value of a run of decimal digits, most significant first.\<close>

definition digits_val :: "string \<Rightarrow> nat" where
  "digits_val ds = foldl (\<lambda>acc c. 10 * acc + digit_val c) 0 ds"

text \<open>\<open>Number.prototype.toString\<close> of a non-negative integer.\<close>

fun show_nat :: "nat \<Rightarrow> string" where
  "show_nat n = (if n < 10 then [digit_char n] else show_nat (n div 10) @ [digit_char (n mod 10)])"

declare show_nat.simps [simp del]

text \<open>Ten to an integer power, as the exponent part of a literal scales the mantissa.\<close>

definition pow10 :: "int \<Rightarrow> rat" where
  "pow10 e = (if 0 \<le> e then 10 ^ nat e else 1 / 10 ^ nat (- e))"

text \<open>
  The optional exponent part of a decimal literal: \<open>e\<close> or \<open>E\<close>, an optional sign and at
  least one digit. An incomplete exponent is not part of the literal.
\<close>

definition exponent_part :: "string \<Rightarrow> int" where
  "exponent_part r =
     (case r of
        [] \<Rightarrow> 0
      | c # r1 \<Rightarrow>
          if c = CHR ''e'' \<or> c = CHR ''E'' then
            (case r1 of
               [] \<Rightarrow> 0
             | s # r2 \<Rightarrow>
                 if s = CHR ''-'' then
                   (if takeWhile is_digit r2 = [] then 0 else - int (digits_val (takeWhile is_digit r2)))
                 else if s = CHR ''+'' then
                   (if takeWhile is_digit r2 = [] then 0 else int (digits_val (takeWhile is_digit r2)))
                 else
                   (if takeWhile is_digit r1 = [] then 0 else int (digits_val (takeWhile is_digit r1))))
          else 0)"

text \<open>
  The unsigned part of \<open>parseFloat\<close>: \<open>Infinity\<close>, or the longest prefix that is a
  decimal literal (digits, an optional fraction, an optional exponent); \<open>NaN\<close> when there is
  no digit at all. The result is the double nearest to the value of the literal.
\<close>

definition unsigned_literal :: "string \<Rightarrow> number" where
  "unsigned_literal u =
     (if take 8 u = ''Infinity'' then PInf
      else
        let ip = takeWhile is_digit u;
            r1 = dropWhile is_digit u;
            has_dot = (r1 \<noteq> [] \<and> hd r1 = CHR ''.'');
            fp = (if has_dot then takeWhile is_digit (tl r1) else []);
            r2 = (if has_dot then dropWhile is_digit (tl r1) else r1)
        in if ip = [] \<and> fp = [] then NaN
           else toNumber (rat_of_nat (digits_val (ip @ fp)) / 10 ^ length fp * pow10 (exponent_part r2)))"

definition parseFloat :: "string \<Rightarrow> number" where
  "parseFloat s =
     (let t = dropWhile is_space s
      in case t of
           [] \<Rightarrow> NaN
         | c # u \<Rightarrow>
             if c = CHR ''-'' then js_neg (unsigned_literal u)
             else if c = CHR ''+'' then unsigned_literal u
             else unsigned_literal t)"

text \<open>
  \<open>parseInt\<close> without a radix: white space, an optional sign, an optional \<open>0x\<close> prefix
  that selects base 16, then the longest run of digits of the base. \<open>None\<close> stands for
  \<open>NaN\<close>; every other result is an integer, which is a double as long as it is not
  above \<open>2^53\<close>.
\<close>

definition is_hex_digit :: "char \<Rightarrow> bool" where
  "is_hex_digit c =
     (is_digit c \<or> (97 \<le> (of_char c :: nat) \<and> (of_char c :: nat) \<le> 102)
                \<or> (65 \<le> (of_char c :: nat) \<and> (of_char c :: nat) \<le> 70))"

definition hex_digit_val :: "char \<Rightarrow> nat" where
  "hex_digit_val c =
     (if is_digit c then digit_val c
      else if 97 \<le> (of_char c :: nat) then of_char c - 87 else of_char c - 55)"

definition unsigned_int :: "string \<Rightarrow> nat option" where
  "unsigned_int u =
     (if take 2 u = ''0x'' \<or> take 2 u = ''0X'' then
        (let ds = takeWhile is_hex_digit (drop 2 u)
         in if ds = [] then None else Some (foldl (\<lambda>acc c. 16 * acc + hex_digit_val c) 0 ds))
      else
        (let ds = takeWhile is_digit u
         in if ds = [] then None else Some (digits_val ds)))"

definition parseInt :: "string \<Rightarrow> int option" where
  "parseInt s =
     (let t = dropWhile is_space s
      in case t of
           [] \<Rightarrow> None
         | c # u \<Rightarrow>
             if c = CHR ''-'' then map_option (\<lambda>n. - int n) (unsigned_int u)
             else if c = CHR ''+'' then map_option int (unsigned_int u)
             else map_option int (unsigned_int t))"

text \<open>
  \<open>Number.prototype.toFixed\<close>: the integer nearest to \<open>x * 10^f\<close> (the larger one on a
  tie), where \<open>x\<close> is the exact value of the double, printed with the decimal point
  \<open>f\<close> digits from the right and padded with zeros to at least one digit before the
  point. The exponent notation that JavaScript switches to from \<open>10^21\<close> on is not
  modelled.
\<close>

definition insert_point :: "nat \<Rightarrow> string \<Rightarrow> string" where
  "insert_point f m =
     (if f = 0 then m
      else
        let k = length m;
            m' = (if k \<le> f then replicate (f + 1 - k) (CHR ''0'') @ m else m);
            k' = (if k \<le> f then f + 1 else k)
        in take (k' - f) m' @ ''.'' @ drop (k' - f) m')"

definition fixed_digits :: "nat \<Rightarrow> rat \<Rightarrow> string" where
  "fixed_digits f x = insert_point f (show_nat (nat \<lfloor>x * 10 ^ f + 1 / 2\<rfloor>))"

fun toFixed :: "nat \<Rightarrow> number \<Rightarrow> string" where
  "toFixed f NaN = ''NaN''"
| "toFixed f PInf = ''Infinity''"
| "toFixed f NInf = ''-Infinity''"
| "toFixed f (Fin x) = (if x < 0 then ''-'' @ fixed_digits f (- x) else fixed_digits f x)"

section \<open>Data model (types.ts)\<close>

datatype OrderSide = BUY | SELL

datatype OrderType = MARKET | LIMIT | STOP_LIMIT

text \<open>An optional field is \<open>None\<close> when it is \<open>undefined\<close>.\<close>

record OrderRequest =
  symbol :: string
  side :: OrderSide
  type :: OrderType
  quantity :: string
  price :: "string option"
  stopPrice :: "string option"
  timeInForce :: "string option"

text \<open>JavaScript truthiness of a string and of an optional string.\<close>

definition truthy :: "string \<Rightarrow> bool" where
  "truthy s = (s \<noteq> [])"

definition truthy_opt :: "string option \<Rightarrow> bool" where
  "truthy_opt v = (case v of None \<Rightarrow> False | Some s \<Rightarrow> s \<noteq> [])"

text \<open>\<open>parseFloat\<close> of an optional string: \<open>undefined\<close> is read as the text "undefined".\<close>

definition parseFloat_opt :: "string option \<Rightarrow> number" where
  "parseFloat_opt v = (case v of None \<Rightarrow> NaN | Some s \<Rightarrow> parseFloat s)"

section \<open>Validator (utils/validator.ts)\<close>

text \<open>The minimum quantities are the doubles that the literals of the table denote.\<close>

record SymbolRules =
  minQty :: rat
  priceDecimals :: nat
  qtyDecimals :: nat

definition DEFAULT_RULES :: SymbolRules where
  "DEFAULT_RULES = \<lparr>minQty = roundDouble (1 / 1000), priceDecimals = 2, qtyDecimals = 3\<rparr>"

definition TRADING_RULES :: "(string \<times> SymbolRules) list" where
  "TRADING_RULES =
     [(''BTCUSDT'', \<lparr>minQty = roundDouble (1 / 1000), priceDecimals = 1, qtyDecimals = 3\<rparr>),
      (''ETHUSDT'', \<lparr>minQty = roundDouble (1 / 100), priceDecimals = 2, qtyDecimals = 3\<rparr>),
      (''BNBUSDT'', \<lparr>minQty = roundDouble (1 / 100), priceDecimals = 2, qtyDecimals = 2\<rparr>),
      (''SOLUSDT'', \<lparr>minQty = 1, priceDecimals = 3, qtyDecimals = 0\<rparr>),
      (''XRPUSDT'', \<lparr>minQty = roundDouble (1 / 10), priceDecimals = 4, qtyDecimals = 1\<rparr>),
      (''ADAUSDT'', \<lparr>minQty = 1, priceDecimals = 4, qtyDecimals = 0\<rparr>),
      (''DOGEUSDT'', \<lparr>minQty = 1, priceDecimals = 5, qtyDecimals = 0\<rparr>),
      (''DEFAULT'', DEFAULT_RULES)]"

definition getSymbolRules :: "string \<Rightarrow> SymbolRules" where
  "getSymbolRules symb =
     (case map_of TRADING_RULES (toUpperCase symb) of Some r \<Rightarrow> r | None \<Rightarrow> DEFAULT_RULES)"

text \<open>
  \<open>countDecimals\<close> is textual: the length of the piece between the first and the second
  dot (\<open>split('.')[1]\<close>), or 0 when the string has no dot.
\<close>

definition countDecimals :: "string \<Rightarrow> nat" where
  "countDecimals valueStr =
     (if CHR ''.'' \<notin> set valueStr then 0
      else length (takeWhile (\<lambda>c. c \<noteq> CHR ''.'') (tl (dropWhile (\<lambda>c. c \<noteq> CHR ''.'') valueStr))))"

text \<open>
  The messages the validator returns, one constructor for each message of the source, with
  the values the message interpolates. \<open>None\<close> is the source's \<open>null\<close>: the input is
  accepted.
\<close>

datatype ValidationError =
    QuantityRequired
  | QuantityBelowMin number rat string
  | QuantityPrecision nat
  | PriceRequired
  | PriceNotPositive
  | PricePrecision nat
  | StopPriceRequired
  | StopPriceNotPositive
  | StopPricePrecision nat
  | MinMaxRequired
  | MinNotBelowMax
  | MinNotPositive
  | MinPricePrecision nat
  | MaxPricePrecision nat
  | GridQuantityRequired
  | GridQuantityBelowMin rat
  | GridQuantityPrecision nat
  | GridCountTooSmall

definition validatePrice :: "SymbolRules \<Rightarrow> OrderRequest \<Rightarrow> ValidationError option" where
  "validatePrice rules order =
     (if type order = LIMIT \<or> type order = STOP_LIMIT then
        (if \<not> truthy_opt (price order) \<or> isNaN (parseFloat_opt (price order)) then Some PriceRequired
         else if js_le (parseFloat_opt (price order)) (Fin 0) then Some PriceNotPositive
         else if countDecimals (the (price order)) > priceDecimals rules
           then Some (PricePrecision (priceDecimals rules))
         else None)
      else None)"

definition validateStopPrice :: "SymbolRules \<Rightarrow> OrderRequest \<Rightarrow> ValidationError option" where
  "validateStopPrice rules order =
     (if type order = STOP_LIMIT then
        (if \<not> truthy_opt (stopPrice order) \<or> isNaN (parseFloat_opt (stopPrice order))
           then Some StopPriceRequired
         else if js_le (parseFloat_opt (stopPrice order)) (Fin 0) then Some StopPriceNotPositive
         else if countDecimals (the (stopPrice order)) > priceDecimals rules
           then Some (StopPricePrecision (priceDecimals rules))
         else None)
      else None)"

definition validateOrderInput :: "OrderRequest \<Rightarrow> ValidationError option" where
  "validateOrderInput order =
     (let rules = getSymbolRules (symbol order) in
      if \<not> truthy (quantity order) \<or> isNaN (parseFloat (quantity order)) then Some QuantityRequired
      else if js_lt (parseFloat (quantity order)) (Fin (minQty rules))
        then Some (QuantityBelowMin (parseFloat (quantity order)) (minQty rules) (symbol order))
      else if countDecimals (quantity order) > qtyDecimals rules
        then Some (QuantityPrecision (qtyDecimals rules))
      else (case validatePrice rules order of
              Some e \<Rightarrow> Some e
            | None \<Rightarrow> validateStopPrice rules order))"

definition validateGridInput :: "string \<Rightarrow> string \<Rightarrow> string \<Rightarrow> string \<Rightarrow> ValidationError option" where
  "validateGridInput symb minPrice maxPrice qty =
     (let rules = getSymbolRules symb in
      if \<not> truthy minPrice \<or> \<not> truthy maxPrice then Some MinMaxRequired
      else if js_ge (parseFloat minPrice) (parseFloat maxPrice) then Some MinNotBelowMax
      else if js_le (parseFloat minPrice) (Fin 0) then Some MinNotPositive
      else if countDecimals minPrice > priceDecimals rules
        then Some (MinPricePrecision (priceDecimals rules))
      else if countDecimals maxPrice > priceDecimals rules
        then Some (MaxPricePrecision (priceDecimals rules))
      else if \<not> truthy qty then Some GridQuantityRequired
      else if js_lt (parseFloat qty) (Fin (minQty rules)) then Some (GridQuantityBelowMin (minQty rules))
      else if countDecimals qty > qtyDecimals rules
        then Some (GridQuantityPrecision (qtyDecimals rules))
      else None)"

section \<open>Grid generator (components/GridForm.tsx)\<close>

text \<open>
  The body of the \<open>for\<close> loop of \<open>generateGrid\<close>, for the index \<open>i\<close>: the raw level,
  the test that drops a level closer to the reference than one unit of price precision, and
  the order pushed otherwise. The loop counter and the grid count are integers; they are the
  doubles of the source as long as the count is at most \<open>2^53\<close>, where the counter of
  the source stops advancing.
\<close>

definition priceLevel :: "number \<Rightarrow> number \<Rightarrow> int \<Rightarrow> number" where
  "priceLevel mn step i = js_add mn (js_mul (Fin (of_int i)) step)"

definition nearReference :: "SymbolRules \<Rightarrow> number \<Rightarrow> number \<Rightarrow> bool" where
  "nearReference rules level ref =
     js_lt (js_abs (js_sub level ref)) (js_div (Fin 1) (toNumber (10 ^ priceDecimals rules)))"

definition gridOrder :: "string \<Rightarrow> string \<Rightarrow> SymbolRules \<Rightarrow> number \<Rightarrow> number \<Rightarrow> OrderRequest" where
  "gridOrder symb qty rules level ref =
     \<lparr>symbol = symb,
      side = (if js_lt level ref then BUY else SELL),
      type = LIMIT,
      quantity = qty,
      price = Some (toFixed (priceDecimals rules) level),
      stopPrice = None,
      timeInForce = Some ''GTC''\<rparr>"

function gridLoop ::
  "string \<Rightarrow> string \<Rightarrow> SymbolRules \<Rightarrow> number \<Rightarrow> number \<Rightarrow> number \<Rightarrow> int \<Rightarrow> int
     \<Rightarrow> OrderRequest list \<Rightarrow> OrderRequest list" where
  "gridLoop symb qty rules mn step ref count i orders =
     (if i < count then
        (if nearReference rules (priceLevel mn step i) ref
         then gridLoop symb qty rules mn step ref count (i + 1) orders
         else gridLoop symb qty rules mn step ref count (i + 1)
                (orders @ [gridOrder symb qty rules (priceLevel mn step i) ref]))
      else orders)"
  by pat_completeness auto
termination
  by (relation "measure (\<lambda>(symb, qty, rules, mn, step, ref, count, i, orders). nat (count - i))") auto

declare gridLoop.simps [simp del]

text \<open>
  \<open>generateGrid\<close>: \<open>Inl\<close> is the validation message shown instead of submitting,
  \<open>Inr\<close> the orders handed to \<open>onSubmit\<close>. A grid count that does not parse is \<open>NaN\<close>:
  it passes \<open>count < 2\<close>, the step is \<open>NaN\<close> and the loop does not run.
\<close>

definition generateGrid ::
  "string \<Rightarrow> string \<Rightarrow> string \<Rightarrow> string \<Rightarrow> string \<Rightarrow> string \<Rightarrow> ValidationError + OrderRequest list" where
  "generateGrid symb minPrice maxPrice gridCount quantityPerGrid refPrice =
     (case validateGridInput symb minPrice maxPrice quantityPerGrid of
        Some error \<Rightarrow> Inl error
      | None \<Rightarrow>
          (let mn = parseFloat minPrice;
               mx = parseFloat maxPrice;
               ref = parseFloat refPrice;
               qty = quantityPerGrid
           in case parseInt gridCount of
                None \<Rightarrow> Inr []
              | Some count \<Rightarrow>
                  if count < 2 then Inl GridCountTooSmall
                  else
                    let rules = getSymbolRules symb;
                        step = js_div (js_sub mx mn) (Fin (of_int (count - 1)))
                    in Inr (gridLoop symb qty rules mn step ref count 0 [])))"


subsection \<open>Notions used to state the properties of the grid\<close>

text \<open>The price of an order as a number, and the raw levels of a grid.\<close>

definition orderPrice :: "OrderRequest \<Rightarrow> number" where
  "orderPrice order = parseFloat_opt (price order)"




definition gridOrders :: "ValidationError + OrderRequest list \<Rightarrow> OrderRequest list" where
  "gridOrders r = (case r of Inl e \<Rightarrow> [] | Inr orders \<Rightarrow> orders)"



text \<open>A grid of integer bounds with a maximum between \<open>2^52\<close> and \<open>2^53\<close>, where
  the doubles are the integers.\<close>

definition wideGrid :: "ValidationError + OrderRequest list" where
  "wideGrid = generateGrid ''BTCUSDT'' ''11'' ''6783971286115398'' ''4'' ''0.001'' ''95000''"

section \<open>Order executor (services/api.ts)\<close>

text \<open>
  The executor is asynchronous and talks to the clock, the random number generator, the
  Web Crypto signer and the network. The model threads a trace of the effects issued so
  far through every call, and takes what the surroundings answer from an environment whose
  answers may depend on that trace. A rejected promise is \<open>Inl\<close> of the thrown error.
\<close>

datatype error = Error string

text \<open>
  Objects that cross the network or are built as literals are lists of properties in
  insertion order; the interfaces \<open>BinanceOrderResponse\<close> and \<open>any\<close> of the source are
  erased at run time.
\<close>

datatype js_value = Undefined | Bool bool | Num number | Str string

type_synonym js_object = "(string \<times> js_value) list"

definition get_prop :: "js_object \<Rightarrow> string \<Rightarrow> js_value" where
  "get_prop obj key = (case map_of obj key of None \<Rightarrow> Undefined | Some v \<Rightarrow> v)"

record ApiCredentials =
  apiKey :: string
  apiSecret :: string

datatype http_method = POST | DELETE

text \<open>A \<open>fetch\<close> call: the method, the URL and the \<open>X-MBX-APIKEY\<close> header.\<close>

record http_request =
  httpMethod :: http_method
  url :: string
  apiKeyHeader :: string

text \<open>
  A response whose body parsed as JSON: \<open>response.ok\<close>, \<open>response.status\<close>, the
  property \<open>msg\<close> of the body when it holds a string, and the body itself.
\<close>

record http_response =
  ok :: bool
  statusCode :: nat
  msg :: "string option"
  data :: js_object

datatype LogLevel = INFO | SUCCESS | ERROR | WARN

text \<open>
  The effects: an awaited \<open>setTimeout\<close>, a call of the signer with its key and message, a
  request handed to \<open>fetch\<close>, an entry added to the log, a change of the loading flag,
  and the two ends of an awaited call of \<open>placeOrder\<close>: its start, and its settling as
  resolved (\<open>True\<close>) or rejected.
\<close>

datatype event =
    Timeout nat
  | Signed string string
  | Request http_request
  | Log LogLevel string
  | SetIsLoading bool
  | PlaceOrderCalled OrderRequest
  | PlaceOrderSettled bool

text \<open>
  The environment: \<open>Date.now()\<close>, \<open>Math.random()\<close> (the value of the double it
  returns), the HMAC-SHA256 of the Web Crypto
  API as a function of key and message (\<open>hmacSha256\<close> returns its lowercase hex digest),
  and the exchange behind \<open>fetch\<close>, which answers or fails.
\<close>

record env =
  now :: "event list \<Rightarrow> nat"
  random :: "event list \<Rightarrow> rat"
  hmacSha256 :: "string \<Rightarrow> string \<Rightarrow> string"
  fetch :: "event list \<Rightarrow> http_request \<Rightarrow> error + http_response"

definition BASE_URL :: string where
  "BASE_URL = ''https://testnet.binancefuture.com''"

fun side_string :: "OrderSide \<Rightarrow> string" where
  "side_string BUY = ''BUY''"
| "side_string SELL = ''SELL''"

fun type_string :: "OrderType \<Rightarrow> string" where
  "type_string MARKET = ''MARKET''"
| "type_string LIMIT = ''LIMIT''"
| "type_string STOP_LIMIT = ''STOP_LIMIT''"

text \<open>\<open>value || fallback\<close> on an optional string.\<close>

definition or_else :: "string option \<Rightarrow> string \<Rightarrow> string" where
  "or_else v fallback = (if truthy_opt v then the v else fallback)"

definition mockPlaceOrder :: "env \<Rightarrow> OrderRequest \<Rightarrow> event list \<Rightarrow> (error + js_object) \<times> event list" where
  "mockPlaceOrder e order tr =
     (let tr1 = tr @ [Timeout 800];
          success = True
      in if success then
           (Inr [(''orderId'', Num (js_floor (js_mul (Fin (random e tr1)) (Fin 1000000000)))),
                 (''symbol'', Str (toUpperCase (symbol order))),
                 (''status'', Str ''NEW''),
                 (''clientOrderId'', Str (''web_'' @ show_nat (now e tr1))),
                 (''price'', Str (or_else (price order) ''0'')),
                 (''avgPrice'', Str ''0.00000''),
                 (''origQty'', Str (quantity order)),
                 (''executedQty'', Str ''0''),
                 (''cumQuote'', Str ''0''),
                 (''timeInForce'', Str ''GTC''),
                 (''type'', Str (type_string (type order))),
                 (''side'', Str (side_string (side order))),
                 (''stopPrice'', Str (or_else (stopPrice order) ''0'')),
                 (''workingType'', Str ''CONTRACT_PRICE''),
                 (''priceProtect'', Bool False),
                 (''origType'', Str (type_string (type order))),
                 (''updateTime'', Num (Fin (rat_of_nat (now e tr1))))],
            tr1)
         else (Inl (Error ''Simulated network error or insufficient balance''), tr1))"

text \<open>The test \<open>/^\d+$/\<close>: a non-empty string of decimal digits.\<close>

definition all_digits :: "string \<Rightarrow> bool" where
  "all_digits s = (s \<noteq> [] \<and> list_all is_digit s)"

definition mockCancelOrder :: "env \<Rightarrow> string \<Rightarrow> string \<Rightarrow> event list \<Rightarrow> (error + js_object) \<times> event list" where
  "mockCancelOrder e symb orderId tr =
     (let tr1 = tr @ [Timeout 600]
      in (Inr [(''symbol'', Str (toUpperCase symb)),
               (''orderId'',
                  (if all_digits orderId then Num (toNumber (rat_of_nat (digits_val orderId)))
                   else Num (js_floor (js_mul (Fin (random e tr1)) (Fin 1000000000))))),
               (''clientOrderId'',
                  (if all_digits orderId then Str (''web_'' @ show_nat (now e tr1)) else Str orderId)),
               (''status'', Str ''CANCELED''),
               (''origQty'', Str ''0.100''),
               (''executedQty'', Str ''0.000''),
               (''cumQuote'', Str ''0.000''),
               (''timeInForce'', Str ''GTC''),
               (''type'', Str ''LIMIT''),
               (''side'', Str ''BUY''),
               (''updateTime'', Num (Fin (rat_of_nat (now e tr1))))],
          tr1))"

text \<open>
  The request parameters are an object with string keys: an assignment to a new key
  appends it, an assignment to a key already there keeps its place; \<open>Object.keys\<close> lists
  the keys in that order (none of the keys is an array index).
\<close>

fun set_param :: "(string \<times> string) list \<Rightarrow> string \<Rightarrow> string \<Rightarrow> (string \<times> string) list" where
  "set_param [] k v = [(k, v)]"
| "set_param ((k', v') # ps) k v = (if k' = k then (k, v) # ps else (k', v') # set_param ps k v)"

fun join :: "string \<Rightarrow> string list \<Rightarrow> string" where
  "join sep [] = []"
| "join sep [x] = x"
| "join sep (x # y # ys) = x @ sep @ join sep (y # ys)"

definition queryString :: "(string \<times> string) list \<Rightarrow> string" where
  "queryString params = join ''&'' (map (\<lambda>(key, v). key @ ''='' @ v) params)"

text \<open>The mapping of the order type to the parameters of the exchange, with its checks.\<close>

definition orderTypeParams :: "OrderRequest \<Rightarrow> (string \<times> string) list \<Rightarrow> error + (string \<times> string) list" where
  "orderTypeParams order params =
     (case type order of
        MARKET \<Rightarrow> Inr (set_param params ''type'' ''MARKET'')
      | LIMIT \<Rightarrow>
          if \<not> truthy_opt (price order) then Inl (Error ''Price is required for LIMIT orders'')
          else Inr (set_param (set_param (set_param params ''type'' ''LIMIT'')
                      ''price'' (the (price order))) ''timeInForce'' ''GTC'')
      | STOP_LIMIT \<Rightarrow>
          if \<not> truthy_opt (price order) then Inl (Error ''Price is required for STOP_LIMIT orders'')
          else if \<not> truthy_opt (stopPrice order)
            then Inl (Error ''Stop Price is required for STOP_LIMIT orders'')
          else Inr (set_param (set_param (set_param (set_param params ''type'' ''STOP'')
                      ''price'' (the (price order))) ''stopPrice'' (the (stopPrice order)))
                      ''timeInForce'' ''GTC''))"

text \<open>
  Signing the query string, issuing the request and reading the answer: the common tail of
  \<open>realPlaceOrder\<close> and \<open>realCancelOrder\<close>.
\<close>

definition signedRequest ::
  "env \<Rightarrow> http_method \<Rightarrow> ApiCredentials \<Rightarrow> (string \<times> string) list \<Rightarrow> event list
     \<Rightarrow> (error + js_object) \<times> event list" where
  "signedRequest e m creds params tr =
     (let query = queryString params;
          signature = hmacSha256 e (apiSecret creds) query;
          tr1 = tr @ [Signed (apiSecret creds) query];
          fullQueryString = query @ ''&signature='' @ signature;
          request = \<lparr>httpMethod = m, url = BASE_URL @ ''/fapi/v1/order'' @ ''?'' @ fullQueryString,
                     apiKeyHeader = apiKey creds\<rparr>;
          tr2 = tr1 @ [Request request]
      in case fetch e tr1 request of
           Inl err \<Rightarrow> (Inl err, tr2)
         | Inr response \<Rightarrow>
             if \<not> ok response
             then (Inl (Error (or_else (msg response) (''API Error: '' @ show_nat (statusCode response)))), tr2)
             else (Inr (data response), tr2))"

definition realPlaceOrder :: "env \<Rightarrow> OrderRequest \<Rightarrow> ApiCredentials \<Rightarrow> event list \<Rightarrow> (error + js_object) \<times> event list" where
  "realPlaceOrder e order creds tr =
     (if \<not> truthy (apiKey creds) \<or> \<not> truthy (apiSecret creds)
      then (Inl (Error ''API Credentials missing''), tr)
      else
        let timestamp = now e tr;
            params = [(''symbol'', toUpperCase (symbol order)),
                      (''side'', side_string (side order)),
                      (''quantity'', quantity order),
                      (''timestamp'', show_nat timestamp),
                      (''recvWindow'', ''5000'')]
        in case orderTypeParams order params of
             Inl err \<Rightarrow> (Inl err, tr)
           | Inr params' \<Rightarrow> signedRequest e POST creds params' tr)"

definition realCancelOrder :: "env \<Rightarrow> string \<Rightarrow> string \<Rightarrow> ApiCredentials \<Rightarrow> event list \<Rightarrow> (error + js_object) \<times> event list" where
  "realCancelOrder e symb orderId creds tr =
     (if \<not> truthy (apiKey creds) \<or> \<not> truthy (apiSecret creds)
      then (Inl (Error ''API Credentials missing''), tr)
      else
        let timestamp = now e tr;
            params = [(''symbol'', toUpperCase symb),
                      (''timestamp'', show_nat timestamp),
                      (''recvWindow'', ''5000'')];
            params' = (if all_digits orderId then set_param params ''orderId'' orderId
                       else set_param params ''origClientOrderId'' orderId)
        in signedRequest e DELETE creds params' tr)"

definition placeOrder :: "env \<Rightarrow> bool \<Rightarrow> OrderRequest \<Rightarrow> ApiCredentials \<Rightarrow> event list \<Rightarrow> (error + js_object) \<times> event list" where
  "placeOrder e isDemo order creds tr =
     (if isDemo then mockPlaceOrder e order tr else realPlaceOrder e order creds tr)"

definition cancelOrder :: "env \<Rightarrow> bool \<Rightarrow> string \<Rightarrow> string \<Rightarrow> ApiCredentials \<Rightarrow> event list \<Rightarrow> (error + js_object) \<times> event list" where
  "cancelOrder e isDemo symb orderId creds tr =
     (if isDemo then mockCancelOrder e symb orderId tr else realCancelOrder e symb orderId creds tr)"

section \<open>Sequential dispatcher (App.tsx, handleGridSubmit)\<close>

text \<open>The text a template literal prints for an optional string.\<close>

definition string_of_opt :: "string option \<Rightarrow> string" where
  "string_of_opt v = (case v of None \<Rightarrow> ''undefined'' | Some s \<Rightarrow> s)"

text \<open>
  The \<open>for ... of\<close> loop with its \<open>try\<close> and \<open>catch\<close>. The counters and the trace are
  passed along; the 200 ms delay is awaited inside the \<open>try\<close> block, after the success
  has been logged and counted.
\<close>

fun gridSubmitLoop ::
  "env \<Rightarrow> bool \<Rightarrow> ApiCredentials \<Rightarrow> OrderRequest list \<Rightarrow> nat \<Rightarrow> nat \<Rightarrow> event list
     \<Rightarrow> nat \<times> nat \<times> event list" where
  "gridSubmitLoop e demoMode creds [] successCount failCount tr = (successCount, failCount, tr)"
| "gridSubmitLoop e demoMode creds (order # rest) successCount failCount tr =
     (case placeOrder e demoMode order creds (tr @ [PlaceOrderCalled order]) of
        (Inr response, tr1) \<Rightarrow>
          gridSubmitLoop e demoMode creds rest (successCount + 1) failCount
            (tr1 @ [PlaceOrderSettled True,
                    Log SUCCESS (''Grid Order Placed: '' @ side_string (side order) @ '' @ ''
                                 @ string_of_opt (price order)),
                    Timeout 200])
      | (Inl err, tr1) \<Rightarrow>
          gridSubmitLoop e demoMode creds rest successCount (failCount + 1)
            (tr1 @ [PlaceOrderSettled False,
                    Log ERROR (''Grid Order Failed: '' @ string_of_opt (price order))]))"

text \<open>
  \<open>handleGridSubmit\<close> returns nothing; the model returns the two counters it logs at the
  end (\<open>None\<close> when the credential guard returns before the loop), and the trace.
\<close>

definition handleGridSubmit ::
  "env \<Rightarrow> bool \<Rightarrow> string \<Rightarrow> string \<Rightarrow> OrderRequest list \<Rightarrow> event list
     \<Rightarrow> (nat \<times> nat) option \<times> event list" where
  "handleGridSubmit e demoMode key secret orders tr =
     (let tr1 = tr @ [SetIsLoading True,
                      Log INFO (''Starting Grid Deployment: '' @ show_nat (length orders)
                                @ '' orders generated'')]
      in if \<not> demoMode \<and> (\<not> truthy key \<or> \<not> truthy secret)
         then (None, tr1 @ [Log ERROR ''API Key and Secret required for Live Mode'',
                            SetIsLoading False])
         else
           (case gridSubmitLoop e demoMode \<lparr>apiKey = key, apiSecret = secret\<rparr> orders 0 0 tr1 of
              (successCount, failCount, tr2) \<Rightarrow>
                (Some (successCount, failCount),
                 tr2 @ [Log INFO (''Grid Deployment Complete. Success: '' @ show_nat successCount
                                  @ '', Failed: '' @ show_nat failCount),
                        SetIsLoading False])))"

subsection \<open>Reading a trace\<close>

text \<open>The orders whose submission was started, in the order of the starts.\<close>

fun attempted :: "event list \<Rightarrow> OrderRequest list" where
  "attempted [] = []"
| "attempted (PlaceOrderCalled order # es) = order # attempted es"
| "attempted (ev # es) = attempted es"

text \<open>The outcomes of the submissions, in the order they settled.\<close>

fun outcomes :: "event list \<Rightarrow> bool list" where
  "outcomes [] = []"
| "outcomes (PlaceOrderSettled b # es) = b # outcomes es"
| "outcomes (ev # es) = outcomes es"

text \<open>
  Submissions are serialized when starts and settlings alternate: no submission starts
  while another is pending, and none is left pending. The flag says whether one is pending.
\<close>

fun serialized :: "bool \<Rightarrow> event list \<Rightarrow> bool" where
  "serialized pending [] = (\<not> pending)"
| "serialized pending (PlaceOrderCalled order # es) = (\<not> pending \<and> serialized True es)"
| "serialized pending (PlaceOrderSettled b # es) = (pending \<and> serialized False es)"
| "serialized pending (ev # es) = serialized pending es"

text \<open>
  The inter-order delay is honoured when, after every settled submission, a wait of 200 ms
  comes before the next submission starts. The flag says whether a wait is still owed.
\<close>

fun throttled :: "bool \<Rightarrow> event list \<Rightarrow> bool" where
  "throttled owed [] = True"
| "throttled owed (PlaceOrderCalled order # es) = (\<not> owed \<and> throttled False es)"
| "throttled owed (PlaceOrderSettled b # es) = throttled True es"
| "throttled owed (Timeout ms # es) = throttled (owed \<and> ms \<noteq> 200) es"
| "throttled owed (ev # es) = throttled owed es"

subsection \<open>A run to evaluate the dispatcher on\<close>

text \<open>
  An exchange that rejects the first order of a batch and accepts the following ones, a
  fixed clock, and two limit orders.
\<close>

definition rejectFirst :: env where
  "rejectFirst =
     \<lparr>now = (\<lambda>tr. 1700000000000),
      random = (\<lambda>tr. 1 / 2),
      hmacSha256 = (\<lambda>key message. ''5f'' ),
      fetch = (\<lambda>tr request.
         if outcomes tr = []
         then Inr \<lparr>ok = False, statusCode = 400, msg = Some ''Margin is insufficient.'', data = []\<rparr>
         else Inr \<lparr>ok = True, statusCode = 200, msg = None,
                   data = [(''orderId'', Num (Fin 42)), (''status'', Str ''NEW'')]\<rparr>)\<rparr>"

definition buy90000 :: OrderRequest where
  "buy90000 = \<lparr>symbol = ''BTCUSDT'', side = BUY, type = LIMIT, quantity = ''0.001'',
                price = Some ''90000.0'', stopPrice = None, timeInForce = Some ''GTC''\<rparr>"

definition buy92500 :: OrderRequest where
  "buy92500 = \<lparr>symbol = ''BTCUSDT'', side = BUY, type = LIMIT, quantity = ''0.001'',
                price = Some ''92500.0'', stopPrice = None, timeInForce = Some ''GTC''\<rparr>"

definition buyLower :: OrderRequest where
  "buyLower = \<lparr>symbol = ''btcusdt'', side = BUY, type = LIMIT, quantity = ''0.001'',
                price = Some ''90000.0'', stopPrice = None, timeInForce = Some ''GTC''\<rparr>"

definition liveRun :: "(nat \<times> nat) option \<times> event list" where
  "liveRun = handleGridSubmit rejectFirst False ''key'' ''secret'' [buy90000, buy92500] []"

text \<open>The events of a trace that make up the schedule of a batch: the starts and the
  settlings of the submissions, and the waits.\<close>

fun schedule :: "event list \<Rightarrow> event list" where
  "schedule [] = []"
| "schedule (PlaceOrderCalled order # es) = PlaceOrderCalled order # schedule es"
| "schedule (PlaceOrderSettled b # es) = PlaceOrderSettled b # schedule es"
| "schedule (Timeout ms # es) = Timeout ms # schedule es"
| "schedule (ev # es) = schedule es"

subsection \<open>Upper case, as the specification words it\<close>

text \<open>
  A string of ASCII characters, and its upper case: the same length, every small letter
  \<open>a\<close> to \<open>z\<close> replaced by its capital, 32 code points below, and every other
  character left as it is.
\<close>

definition isAscii :: "string \<Rightarrow> bool" where
  "isAscii s = list_all (\<lambda>c. (of_char c :: nat) < 128) s"

definition capitalOf :: "char \<Rightarrow> char \<Rightarrow> bool" where
  "capitalOf c u =
     (if 97 \<le> (of_char c :: nat) \<and> (of_char c :: nat) \<le> 122
      then (of_char u :: nat) + 32 = of_char c
      else u = c)"

definition upperCased :: "string \<Rightarrow> string \<Rightarrow> bool" where
  "upperCased s u = list_all2 capitalOf s u"

subsection \<open>The message of a signed order, as the specification words it\<close>

text \<open>
  The \<open>key=value\<close> pairs joined by \<open>&\<close> in the order symbol, side, quantity,
  timestamp, recvWindow, then the type and the parameters that depend on it.
\<close>

definition claimedMessage :: "OrderRequest \<Rightarrow> nat \<Rightarrow> string" where
  "claimedMessage order timestamp =
     ''symbol='' @ toUpperCase (symbol order)
     @ ''&side='' @ side_string (side order)
     @ ''&quantity='' @ quantity order
     @ ''&timestamp='' @ show_nat timestamp
     @ ''&recvWindow=5000''
     @ (case type order of
          MARKET \<Rightarrow> ''&type=MARKET''
        | LIMIT \<Rightarrow> ''&type=LIMIT&price='' @ the (price order) @ ''&timeInForce=GTC''
        | STOP_LIMIT \<Rightarrow> ''&type=STOP&price='' @ the (price order)
                          @ ''&stopPrice='' @ the (stopPrice order) @ ''&timeInForce=GTC'')"

text \<open>The fields the type of an order requires are present.\<close>

definition hasRequiredPrices :: "OrderRequest \<Rightarrow> bool" where
  "hasRequiredPrices order =
     (case type order of
        MARKET \<Rightarrow> True
      | LIMIT \<Rightarrow> truthy_opt (price order)
      | STOP_LIMIT \<Rightarrow> truthy_opt (price order) \<and> truthy_opt (stopPrice order))"

section \<open>Stream sessions (services/websocket.ts)\<close>

text \<open>
  \<open>subscribeToTicker\<close> and \<open>subscribeToUserData\<close> keep three variables in a closure:
  the socket \<open>ws\<close>, the flag \<open>active\<close> and the timer handle \<open>reconnectTimeout\<close>. The model
  adds what the browser holds for the session: the sockets it created that have not closed
  yet (each with the \<open>onclose\<close> handler of the session), the timers that will call
  \<open>connect\<close> and have neither fired nor been cleared, with their delays, a supply of fresh
  handles, and the number of sockets constructed so far. Handles are positive numbers. The
  message handlers change none of these variables and are left out.
\<close>

record stream =
  endpoint :: string
  ws :: "nat option"
  active :: bool
  reconnectTimeout :: "nat option"
  openSockets :: "nat list"
  pendingTimers :: "(nat \<times> nat) list"
  nextHandle :: nat
  attempts :: nat

definition RECONNECT_DELAY :: nat where
  "RECONNECT_DELAY = 3000"

text \<open>\<open>reconnectTimeout = setTimeout(connect, RECONNECT_DELAY)\<close>.\<close>

definition scheduleReconnect :: "stream \<Rightarrow> stream" where
  "scheduleReconnect st =
     st\<lparr>reconnectTimeout := Some (nextHandle st),
        pendingTimers := pendingTimers st @ [(nextHandle st, RECONNECT_DELAY)],
        nextHandle := nextHandle st + 1\<rparr>"

text \<open>
  \<open>connect\<close>. Whether the constructor \<open>new WebSocket\<close> throws is up to the browser and
  is a parameter; the \<open>catch\<close> block schedules a reconnection when the session is active.
\<close>

definition connect :: "bool \<Rightarrow> stream \<Rightarrow> stream" where
  "connect throws st =
     (if \<not> active st then st
      else if throws then
        (let st1 = st\<lparr>attempts := attempts st + 1\<rparr>
         in if active st1 then scheduleReconnect st1 else st1)
      else
        st\<lparr>ws := Some (nextHandle st),
           openSockets := openSockets st @ [nextHandle st],
           nextHandle := nextHandle st + 1,
           attempts := attempts st + 1\<rparr>)"

text \<open>The \<open>onclose\<close> handler of a socket of the session.\<close>

definition onclose :: "stream \<Rightarrow> stream" where
  "onclose st = (if active st then scheduleReconnect st else st)"

text \<open>
  The function returned to the caller. \<open>clearTimeout\<close> removes the timer if it is still
  pending; \<open>ws.close()\<close> starts the closing of the socket, whose \<open>onclose\<close> will run
  later.
\<close>

definition cleanup :: "stream \<Rightarrow> stream" where
  "cleanup st =
     (let st1 = st\<lparr>active := False\<rparr>;
          st2 = (case reconnectTimeout st1 of
                   None \<Rightarrow> st1
                 | Some h \<Rightarrow>
                     if h \<noteq> 0 then st1\<lparr>pendingTimers := filter (\<lambda>(t, d). t \<noteq> h) (pendingTimers st1)\<rparr>
                     else st1)
      in case ws st2 of None \<Rightarrow> st2 | Some s \<Rightarrow> st2\<lparr>ws := None\<rparr>)"

definition newStream :: "string \<Rightarrow> stream" where
  "newStream address =
     \<lparr>endpoint = address, ws = None, active = True, reconnectTimeout = None,
      openSockets = [], pendingTimers = [], nextHandle = 1, attempts = 0\<rparr>"

text \<open>
  Subscribing builds the session and calls \<open>connect\<close> once. With an empty symbol the
  ticker makes no session at all and returns a function that does nothing.
\<close>

definition subscribeToTicker :: "bool \<Rightarrow> string \<Rightarrow> stream option" where
  "subscribeToTicker throws symb =
     (if \<not> truthy symb then None
      else Some (connect throws
             (newStream (''wss://stream.binancefuture.com/ws/'' @ toLowerCase symb @ ''@bookTicker''))))"

definition subscribeToUserData :: "bool \<Rightarrow> string \<Rightarrow> stream" where
  "subscribeToUserData throws listenKey =
     connect throws (newStream (''wss://stream.binancefuture.com/ws/'' @ listenKey))"

text \<open>
  What can happen to a session afterwards: one of its sockets closes, one of its timers
  fires (and the constructor then throws or not), or the caller unsubscribes. An event
  for a socket that is not open or a timer that is not pending does not occur.
\<close>

datatype stream_event = SocketClosed nat | TimerFired nat bool | Unsubscribe

fun streamStep :: "stream \<Rightarrow> stream_event \<Rightarrow> stream" where
  "streamStep st (SocketClosed s) =
     (if s \<in> set (openSockets st)
      then onclose (st\<lparr>openSockets := removeAll s (openSockets st)\<rparr>)
      else st)"
| "streamStep st (TimerFired t throws) =
     (if t \<in> fst ` set (pendingTimers st)
      then connect throws (st\<lparr>pendingTimers := filter (\<lambda>(h, d). h \<noteq> t) (pendingTimers st)\<rparr>)
      else st)"
| "streamStep st Unsubscribe = cleanup st"

definition streamRun :: "stream \<Rightarrow> stream_event list \<Rightarrow> stream" where
  "streamRun st evs = foldl streamStep st evs"

text \<open>
  The sessions a subscription can reach: at most one socket or timer is outstanding, and
  a pending timer is the one \<open>reconnectTimeout\<close> holds, set for the fixed delay.
\<close>

definition wellFormed :: "stream \<Rightarrow> bool" where
  "wellFormed st =
     (0 < nextHandle st
      \<and> list_all (\<lambda>s. s < nextHandle st) (openSockets st)
      \<and> list_all (\<lambda>(t, d). t < nextHandle st) (pendingTimers st)
      \<and> length (openSockets st) + length (pendingTimers st) \<le> 1
      \<and> (pendingTimers st = []
         \<or> pendingTimers st = [(the (reconnectTimeout st), RECONNECT_DELAY)]
           \<and> reconnectTimeout st \<noteq> None \<and> the (reconnectTimeout st) \<noteq> 0))"

section \<open>Properties of rounding to a double\<close>

lemma roundHalfEven_of_int [simp]: "roundHalfEven (of_int k) = k"
  by (simp add: roundHalfEven_def)

lemma roundHalfEven_bounds: "\<lfloor>t\<rfloor> \<le> roundHalfEven t" "roundHalfEven t \<le> \<lfloor>t\<rfloor> + 1"
  by (simp_all add: roundHalfEven_def Let_def)

lemma roundHalfEven_mono:
  assumes "t \<le> u"
  shows "roundHalfEven t \<le> roundHalfEven u"
proof (cases "\<lfloor>t\<rfloor> = \<lfloor>u\<rfloor>")
  case True
  with assms show ?thesis by (auto simp add: roundHalfEven_def Let_def)
next
  case False
  with assms have "\<lfloor>t\<rfloor> < \<lfloor>u\<rfloor>" using floor_mono [of t u] by linarith
  with roundHalfEven_bounds(2) [of t] roundHalfEven_bounds(1) [of u] show ?thesis by linarith
qed

lemma roundHalfEven_le: "t \<le> of_int k \<Longrightarrow> roundHalfEven t \<le> k"
  using roundHalfEven_mono [of t "of_int k"] by simp

lemma roundHalfEven_ge: "of_int k \<le> t \<Longrightarrow> k \<le> roundHalfEven t"
  using roundHalfEven_mono [of "of_int k" t] by simp

lemma roundHalfEven_near: "\<bar>of_int (roundHalfEven t) - t\<bar> \<le> 1 / 2"
  by (auto simp add: roundHalfEven_def Let_def abs_if) linarith+

lemma log2_up_spec: "1 \<le> x \<Longrightarrow> 2 powi (log2_up x) \<le> x \<and> x < 2 powi (log2_up x + 1)"
proof (induction x rule: log2_up.induct)
  case (1 x)
  show ?case
  proof (cases "x < 2")
    case True
    with 1 show ?thesis by (simp add: log2_up.simps)
  next
    case False
    then have "1 \<le> x / 2" by simp
    with 1 False have IH: "2 powi (log2_up (x / 2)) \<le> x / 2" "x / 2 < 2 powi (log2_up (x / 2) + 1)"
      by auto
    have "log2_up x = log2_up (x / 2) + 1" using False by (simp add: log2_up.simps)
    with IH show ?thesis by (simp add: power_int_add)
  qed
qed

lemma log2_down_spec:
  "0 < x \<Longrightarrow> x < 1 \<Longrightarrow> 2 powi (log2_down x) \<le> x \<and> x < 2 powi (log2_down x + 1)"
proof (induction x rule: log2_down.induct)
  case (1 x)
  have eq: "log2_down x = log2_down (2 * x) - 1" using 1 by (simp add: log2_down.simps)
  show ?case
  proof (cases "2 * x < 1")
    case True
    with 1 have IH: "2 powi (log2_down (2 * x)) \<le> 2 * x" "2 * x < 2 powi (log2_down (2 * x) + 1)"
      by auto
    have "(2::rat) powi (log2_down (2 * x) + 1) = 2 powi (log2_down (2 * x)) * 2"
      by (simp add: power_int_add)
    moreover have "(2::rat) powi (log2_down (2 * x) - 1) = 2 powi (log2_down (2 * x)) / 2"
      by (simp add: power_int_diff)
    ultimately show ?thesis using IH unfolding eq by simp
  next
    case False
    then have "log2_down (2 * x) = 0" by (simp add: log2_down.simps)
    with False 1 show ?thesis unfolding eq by (simp add: power_int_minus)
  qed
qed

lemma pow2_less_D: "(2::rat) powi m < 2 powi n \<Longrightarrow> m < n"
  using power_int_increasing [of n m "2::rat"] by (cases "m < n") auto

lemma pow2_le_D: "(2::rat) powi m \<le> 2 powi n \<Longrightarrow> m \<le> n"
  using power_int_strict_increasing [of n m "2::rat"] by (cases "m \<le> n") auto

lemma binaryExponent_spec:
  assumes "0 < x"
  shows "2 powi (binaryExponent x) \<le> x" "x < 2 powi (binaryExponent x + 1)"
  using assms log2_up_spec [of x] log2_down_spec [of x]
  by (auto simp add: binaryExponent_def)

lemma binaryExponent_unique:
  assumes "2 powi e \<le> x" "x < 2 powi (e + 1)"
  shows "binaryExponent x = e"
proof -
  have pos: "0 < x" using assms(1) zero_less_power_int [of "2::rat" e] by linarith
  note s = binaryExponent_spec [OF pos]
  have "(2::rat) powi e < 2 powi (binaryExponent x + 1)" using assms(1) s(2) by linarith
  then have "e < binaryExponent x + 1" by (rule pow2_less_D)
  moreover have "(2::rat) powi (binaryExponent x) < 2 powi (e + 1)" using assms(2) s(1) by linarith
  then have "binaryExponent x < e + 1" by (rule pow2_less_D)
  ultimately show ?thesis by simp
qed

lemma binaryExponent_mono:
  assumes "0 < x" "x \<le> y"
  shows "binaryExponent x \<le> binaryExponent y"
proof -
  have "(2::rat) powi (binaryExponent x) < 2 powi (binaryExponent y + 1)"
    using binaryExponent_spec(1) [OF assms(1)] binaryExponent_spec(2) [of y] assms by linarith
  then have "binaryExponent x < binaryExponent y + 1" by (rule pow2_less_D)
  then show ?thesis by simp
qed

lemma pow2_add: "(2::rat) powi (a + b) = 2 powi a * 2 powi b"
  by (subst power_int_add) simp_all

lemma pow2_53: "(2::rat) powi (e + 1) = 2 ^ 53 * 2 powi (e - 52)"
proof -
  have "e + 1 = 53 + (e - 52)" by simp
  then have "(2::rat) powi (e + 1) = 2 powi (53 + (e - 52))" by (rule arg_cong)
  also have "\<dots> = 2 powi 53 * 2 powi (e - 52)" by (rule pow2_add)
  finally show ?thesis by simp
qed

lemma pow2_52: "(2::rat) powi e = 2 ^ 52 * 2 powi (e - 52)"
proof -
  have "e = 52 + (e - 52)" by simp
  then have "(2::rat) powi e = 2 powi (52 + (e - 52))" by (rule arg_cong)
  also have "\<dots> = 2 powi 52 * 2 powi (e - 52)" by (rule pow2_add)
  finally show ?thesis by simp
qed

lemma quantum_pos: "0 < quantum x"
  by (simp add: quantum_def)

lemma roundPositive_nonneg: "0 \<le> x \<Longrightarrow> 0 \<le> roundPositive x"
proof -
  assume "0 \<le> x"
  then have "of_int 0 \<le> x / quantum x" using quantum_pos [of x] by simp
  then have "0 \<le> roundHalfEven (x / quantum x)" by (rule roundHalfEven_ge)
  then show ?thesis using quantum_pos [of x] by (simp add: roundPositive_def)
qed

text \<open>A value of exponent \<open>e\<close> rounds to at most \<open>2^(e+1)\<close> and to at least \<open>2^e\<close>.\<close>

lemma roundPositive_upper:
  assumes "0 < x" "e = max (binaryExponent x) (- 1022)"
  shows "roundPositive x \<le> 2 powi (e + 1)"
proof -
  have q: "quantum x = 2 powi (e - 52)" by (simp add: quantum_def assms(2))
  have "x < 2 powi (binaryExponent x + 1)" by (rule binaryExponent_spec(2) [OF assms(1)])
  also have "\<dots> \<le> 2 powi (e + 1)" by (rule power_int_increasing) (simp_all add: assms(2))
  finally have "x \<le> 2 powi (e + 1)" by simp
  moreover have "(2::rat) powi (e + 1) = 2 ^ 53 * 2 powi (e - 52)"
    by (rule pow2_53)
  ultimately have "x / quantum x \<le> of_int (2 ^ 53)"
    using quantum_pos [of x] by (simp add: q pos_divide_le_eq)
  then have "roundHalfEven (x / quantum x) \<le> 2 ^ 53" by (rule roundHalfEven_le)
  then have "rat_of_int (roundHalfEven (x / quantum x)) \<le> of_int (2 ^ 53)" by (simp only: of_int_le_iff)
  then have "rat_of_int (roundHalfEven (x / quantum x)) * quantum x \<le> 2 ^ 53 * quantum x"
    using quantum_pos [of x] by simp
  then show ?thesis
    by (simp add: roundPositive_def q \<open>(2::rat) powi (e + 1) = 2 ^ 53 * 2 powi (e - 52)\<close>)
qed

lemma roundPositive_lower:
  assumes "0 < x" "- 1022 \<le> binaryExponent x"
  shows "2 powi (binaryExponent x) \<le> roundPositive x"
proof -
  define e where "e = binaryExponent x"
  have q: "quantum x = 2 powi (e - 52)" using assms(2) by (simp add: quantum_def e_def max_def)
  have "2 powi e \<le> x" unfolding e_def by (rule binaryExponent_spec(1) [OF assms(1)])
  moreover have p: "(2::rat) powi e = 2 ^ 52 * 2 powi (e - 52)"
    by (rule pow2_52)
  ultimately have "of_int (2 ^ 52) \<le> x / quantum x"
    using quantum_pos [of x] by (simp add: q pos_le_divide_eq)
  then have "2 ^ 52 \<le> roundHalfEven (x / quantum x)" by (rule roundHalfEven_ge)
  then have "rat_of_int (2 ^ 52) \<le> of_int (roundHalfEven (x / quantum x))" by (simp only: of_int_le_iff)
  then have "2 ^ 52 * quantum x \<le> rat_of_int (roundHalfEven (x / quantum x)) * quantum x"
    using quantum_pos [of x] by simp
  then show ?thesis
    by (simp add: roundPositive_def q p e_def [symmetric])
qed

lemma roundPositive_mono:
  assumes "0 < x" "x \<le> y"
  shows "roundPositive x \<le> roundPositive y"
proof -
  define ex where "ex = max (binaryExponent x) (- 1022)"
  define ey where "ey = max (binaryExponent y) (- 1022)"
  have y: "0 < y" using assms by simp
  have le: "ex \<le> ey" using binaryExponent_mono [OF assms] by (simp add: ex_def ey_def)
  show ?thesis
  proof (cases "ex = ey")
    case True
    then have q: "quantum x = quantum y" by (simp add: quantum_def ex_def ey_def)
    have "x / quantum y \<le> y / quantum y" using assms(2) quantum_pos [of y]
      by (simp add: divide_right_mono)
    then have "roundHalfEven (x / quantum y) \<le> roundHalfEven (y / quantum y)"
      by (rule roundHalfEven_mono)
    then have "rat_of_int (roundHalfEven (x / quantum y)) \<le> of_int (roundHalfEven (y / quantum y))"
      by (simp only: of_int_le_iff)
    then show ?thesis using quantum_pos [of y] by (simp add: roundPositive_def q)
  next
    case False
    with le have lt: "ex < ey" by simp
    then have ey: "ey = binaryExponent y" "- 1022 \<le> binaryExponent y"
      by (auto simp add: ex_def ey_def max_def split: if_splits)
    have "roundPositive x \<le> 2 powi (ex + 1)" by (rule roundPositive_upper [OF assms(1) ex_def])
    also have "\<dots> \<le> 2 powi ey" by (rule power_int_increasing) (use lt in simp_all)
    also have "\<dots> \<le> roundPositive y" unfolding ey(1) by (rule roundPositive_lower [OF y ey(2)])
    finally show ?thesis .
  qed
qed

lemma roundDouble_0 [simp]: "roundDouble 0 = 0"
  by (simp add: roundDouble_def)

lemma roundDouble_minus: "roundDouble (- x) = - roundDouble x"
  by (simp add: roundDouble_def)

lemma roundDouble_nonneg: "0 \<le> x \<Longrightarrow> 0 \<le> roundDouble x"
  using roundPositive_nonneg [of x] by (simp add: roundDouble_def)

lemma roundDouble_nonpos: "x \<le> 0 \<Longrightarrow> roundDouble x \<le> 0"
  using roundDouble_nonneg [of "- x"] by (simp add: roundDouble_minus)

lemma roundDouble_mono:
  assumes "x \<le> y"
  shows "roundDouble x \<le> roundDouble y"
proof -
  consider "0 < x" | "x \<le> 0" "0 \<le> y" | "y < 0" by linarith
  then show ?thesis
  proof cases
    case 1
    with assms roundPositive_mono [of x y] show ?thesis by (simp add: roundDouble_def)
  next
    case 2
    with roundDouble_nonpos [of x] roundDouble_nonneg [of y] show ?thesis by linarith
  next
    case 3
    with assms roundPositive_mono [of "- y" "- x"] show ?thesis by (simp add: roundDouble_def)
  qed
qed

text \<open>Doubles: m * 2^j with m below 2^53 and j from -1074 on are left as they are.\<close>

lemma roundPositive_exact:
  assumes "0 < m" "m < 2 ^ 53" "- 1074 \<le> j"
  shows "roundPositive (of_int m * 2 powi j) = of_int m * 2 powi j"
proof -
  define x :: rat where "x = of_int m * 2 powi j"
  define e where "e = max (binaryExponent x) (- 1022)"
  have pos: "0 < x" using assms(1) by (simp add: x_def)
  have "2 powi (binaryExponent x) \<le> x" by (rule binaryExponent_spec(1) [OF pos])
  also have "x < 2 ^ 53 * 2 powi j"
  proof -
    have "rat_of_int m < of_int (2 ^ 53)" using assms(2) by (simp only: of_int_less_iff)
    then show ?thesis by (simp add: x_def)
  qed
  also have "2 ^ 53 * 2 powi j = (2::rat) powi (53 + j)" by (simp add: pow2_add)
  finally have "binaryExponent x < 53 + j" by (rule pow2_less_D)
  then have ej: "e - 52 \<le> j" using assms(3) by (simp add: e_def)
  define k where "k = nat (j - (e - 52))"
  have "j = int k + (e - 52)" using ej by (simp add: k_def)
  then have "(2::rat) powi j = 2 powi (int k + (e - 52))" by (rule arg_cong)
  also have "\<dots> = 2 ^ k * 2 powi (e - 52)" by (simp add: pow2_add)
  finally have pj: "(2::rat) powi j = 2 ^ k * 2 powi (e - 52)" .
  have q: "quantum x = 2 powi (e - 52)" by (simp add: quantum_def e_def)
  have "x / quantum x = of_int (m * 2 ^ k)" unfolding q by (simp add: x_def pj)
  then have "roundPositive x = of_int (m * 2 ^ k) * 2 powi (e - 52)"
    by (simp only: roundPositive_def roundHalfEven_of_int q)
  also have "\<dots> = x" by (simp add: x_def pj)
  finally show ?thesis by (simp only: x_def)
qed

lemma roundDouble_exact:
  assumes "\<bar>m\<bar> < 2 ^ 53" "- 1074 \<le> j"
  shows "roundDouble (of_int m * 2 powi j) = of_int m * 2 powi j"
proof -
  consider "m = 0" | "0 < m" | "m < 0" by linarith
  then show ?thesis
  proof cases
    case 1 then show ?thesis by simp
  next
    case 2
    with assms roundPositive_exact [of m j] show ?thesis by (simp add: roundDouble_def)
  next
    case 3
    then have "rat_of_int m * 2 powi j < 0" by (simp add: mult_less_0_iff)
    with 3 assms roundPositive_exact [of "- m" j] show ?thesis
      by (simp add: roundDouble_def)
  qed
qed

lemma roundDouble_of_int: "\<bar>m\<bar> < 2 ^ 53 \<Longrightarrow> roundDouble (of_int m) = of_int m"
  using roundDouble_exact [of m 0] by simp

lemma roundPositive_idem:
  assumes "0 < x"
  shows "roundDouble (roundPositive x) = roundPositive x"
proof -
  define e where "e = max (binaryExponent x) (- 1022)"
  define n where "n = roundHalfEven (x / quantum x)"
  have q: "quantum x = 2 powi (e - 52)" by (simp add: quantum_def e_def)
  have r: "roundPositive x = of_int n * 2 powi (e - 52)" by (simp add: roundPositive_def n_def q)
  have j: "- 1074 \<le> e - 52" by (simp add: e_def)
  have "of_int 0 \<le> x / quantum x" using assms quantum_pos [of x] by simp
  then have n0: "0 \<le> n" unfolding n_def by (rule roundHalfEven_ge)
  have "roundPositive x \<le> 2 powi (e + 1)" by (rule roundPositive_upper [OF assms e_def])
  moreover have p: "(2::rat) powi (e + 1) = 2 ^ 53 * 2 powi (e - 52)"
    by (rule pow2_53)
  ultimately have "rat_of_int n \<le> 2 ^ 53" unfolding r by simp
  then have "rat_of_int n \<le> of_int (2 ^ 53)" by simp
  then have n53: "n \<le> 2 ^ 53" by (simp only: of_int_le_iff)
  show ?thesis
  proof (cases "n = 2 ^ 53")
    case True
    have "roundPositive x = of_int 1 * 2 powi (e + 1)" by (simp add: r True p)
    moreover have "roundDouble (of_int 1 * 2 powi (e + 1)) = of_int 1 * 2 powi (e + 1)"
      by (rule roundDouble_exact) (use j in simp_all)
    ultimately show ?thesis by simp
  next
    case False
    with n53 n0 have "\<bar>n\<bar> < 2 ^ 53" by simp
    then show ?thesis unfolding r using j by (rule roundDouble_exact)
  qed
qed

lemma roundDouble_idem [simp]: "roundDouble (roundDouble x) = roundDouble x"
proof -
  consider "x = 0" | "0 < x" | "x < 0" by linarith
  then show ?thesis
  proof cases
    case 1 then show ?thesis by simp
  next
    case 2
    with roundPositive_idem [of x] show ?thesis by (simp add: roundDouble_def)
  next
    case 3
    then have "roundDouble x = - roundPositive (- x)" by (simp add: roundDouble_def)
    moreover have "roundDouble (- roundPositive (- x)) = - roundPositive (- x)"
      using 3 roundPositive_idem [of "- x"] by (simp add: roundDouble_minus)
    ultimately show ?thesis by simp
  qed
qed

lemma roundDouble_le: "x \<le> d \<Longrightarrow> roundDouble d = d \<Longrightarrow> roundDouble x \<le> d"
  using roundDouble_mono [of x d] by simp

lemma roundDouble_ge: "d \<le> x \<Longrightarrow> roundDouble d = d \<Longrightarrow> d \<le> roundDouble x"
  using roundDouble_mono [of d x] by simp

subsection \<open>Numbers\<close>

lemma overflowThreshold_pos: "0 < overflowThreshold"
  by (simp add: overflowThreshold_def)

lemma overflowThreshold_large: "2 ^ 53 < overflowThreshold"
  by (simp add: overflowThreshold_def)


lemma toNumber_FinD:
  assumes "toNumber x = Fin v"
  shows "v = roundDouble x" "- overflowThreshold < v" "v < overflowThreshold"
  using assms by (simp_all add: toNumber_def Let_def split: if_splits)

lemma toNumber_FinI:
  "- overflowThreshold < roundDouble x \<Longrightarrow> roundDouble x < overflowThreshold
   \<Longrightarrow> toNumber x = Fin (roundDouble x)"
  by (simp add: toNumber_def Let_def)



lemma toNumber_bounded:
  assumes "toNumber y = Fin y" "\<bar>x\<bar> \<le> y"
  shows "toNumber x = Fin (roundDouble x)"
proof -
  note d = toNumber_FinD [OF assms(1)]
  have y: "roundDouble y = y" using d(1) by simp
  have "roundDouble x \<le> y" by (rule roundDouble_le [OF _ y]) (use assms(2) in linarith)
  moreover have "- y \<le> roundDouble x"
    by (rule roundDouble_ge) (use assms(2) in \<open>simp_all add: roundDouble_minus y\<close>)
  ultimately show ?thesis using d(2,3) by (intro toNumber_FinI) linarith+
qed

lemma toNumber_0 [simp]: "toNumber 0 = Fin 0"
  using overflowThreshold_pos by (simp add: toNumber_def)

lemma toNumber_of_int:
  assumes "\<bar>m\<bar> < 2 ^ 53"
  shows "toNumber (of_int m) = Fin (of_int m)"
proof -
  have r: "roundDouble (rat_of_int m) = of_int m" by (rule roundDouble_of_int [OF assms])
  have "\<bar>rat_of_int m\<bar> < of_int (2 ^ 53)" using assms by (simp only: of_int_abs [symmetric] of_int_less_iff)
  then have "\<bar>rat_of_int m\<bar> < overflowThreshold" using overflowThreshold_large by simp
  then have "- overflowThreshold < roundDouble (rat_of_int m)"
    and "roundDouble (rat_of_int m) < overflowThreshold"
    unfolding r by linarith+
  then have "toNumber (rat_of_int m) = Fin (roundDouble (rat_of_int m))" by (rule toNumber_FinI)
  then show ?thesis by (simp only: r)
qed

lemma toNumber_small:
  assumes "\<bar>x\<bar> \<le> 2 ^ 53"
  shows "toNumber x = Fin (roundDouble x)"
proof (rule toNumber_bounded [OF _ assms])
  have r: "roundDouble (2 ^ 53) = 2 ^ 53"
    using roundDouble_exact [of "2 ^ 52" 1] by simp
  have "- overflowThreshold < roundDouble (2 ^ 53)" and "roundDouble (2 ^ 53) < overflowThreshold"
    unfolding r using overflowThreshold_large by simp_all
  then have "toNumber (2 ^ 53) = Fin (roundDouble (2 ^ 53))" by (rule toNumber_FinI)
  then show "toNumber (2 ^ 53) = Fin (2 ^ 53)" by (simp only: r)
qed

lemma roundDouble_numeral:
  "numeral k < (2::int) ^ 53 \<Longrightarrow> roundDouble (numeral k) = numeral k"
  using roundDouble_of_int [of "numeral k"] by simp

lemma roundDouble_1 [simp]: "roundDouble 1 = 1"
  using roundDouble_of_int [of 1] by simp

lemma roundDouble_dyadic:
  assumes "\<bar>m\<bar> < 2 ^ 53" "k \<le> 1074"
  shows "roundDouble (of_int m / 2 ^ k) = of_int m / 2 ^ k"
proof -
  have "(2::rat) powi (- int k) = 1 / 2 ^ k"
    by (simp add: power_int_minus divide_inverse)
  then show ?thesis
    using roundDouble_exact [of m "- int k"] assms by simp
qed

lemma toNumber_numeral:
  "numeral k < (2::int) ^ 53 \<Longrightarrow> toNumber (numeral k) = Fin (numeral k)"
  using toNumber_of_int [of "numeral k"] by simp

lemma toNumber_1 [simp]: "toNumber 1 = Fin 1"
  using toNumber_of_int [of 1] by simp

lemma toNumber_neg_numeral:
  "numeral k < (2::int) ^ 53 \<Longrightarrow> toNumber (- numeral k) = Fin (- numeral k)"
  using toNumber_of_int [of "- numeral k"] by simp

lemmas number_simps = toNumber_numeral toNumber_neg_numeral toNumber_small roundDouble_numeral

text \<open>Halves, quarters, eighths and sixteenths of integers below \<open>2^53\<close> are doubles.\<close>

lemma roundDouble_binary_fractions:
  "numeral m < (2::int) ^ 53 \<Longrightarrow> roundDouble (numeral m / 2) = numeral m / 2"
  "numeral m < (2::int) ^ 53 \<Longrightarrow> roundDouble (numeral m / 4) = numeral m / 4"
  "numeral m < (2::int) ^ 53 \<Longrightarrow> roundDouble (numeral m / 8) = numeral m / 8"
  "numeral m < (2::int) ^ 53 \<Longrightarrow> roundDouble (numeral m / 16) = numeral m / 16"
  "roundDouble (1 / 2) = 1 / 2"
  "roundDouble (1 / 4) = 1 / 4"
  "roundDouble (1 / 8) = 1 / 8"
  "roundDouble (1 / 16) = 1 / 16"
  using roundDouble_dyadic [of "numeral m" 1] roundDouble_dyadic [of "numeral m" 2]
    roundDouble_dyadic [of "numeral m" 3] roundDouble_dyadic [of "numeral m" 4]
    roundDouble_dyadic [of 1 1] roundDouble_dyadic [of 1 2]
    roundDouble_dyadic [of 1 3] roundDouble_dyadic [of 1 4]
  by simp_all

text \<open>Evaluating the rounding of a value from its exponent and the nearest multiple of the spacing.\<close>

lemma roundHalfEven_unique:
  assumes "\<bar>t - of_int m\<bar> < 1 / 2"
  shows "roundHalfEven t = m"
proof (cases "of_int m \<le> t")
  case True
  have "\<lfloor>t\<rfloor> = m" by (rule floor_unique) (use True assms in linarith)+
  then show ?thesis using assms True by (simp add: roundHalfEven_def)
next
  case False
  have m1: "rat_of_int (m - 1) = of_int m - 1" by simp
  have f: "\<lfloor>t\<rfloor> = m - 1"
  proof (rule floor_unique)
    show "rat_of_int (m - 1) \<le> t" unfolding m1 using assms False by linarith
    show "t < rat_of_int (m - 1) + 1" unfolding m1 using False by linarith
  qed
  have "1 / 2 < t - of_int (m - 1)" using assms False unfolding m1 by linarith
  then show ?thesis using f by (simp add: roundHalfEven_def)
qed

lemma roundDouble_eval:
  assumes "2 powi e \<le> x" "x < 2 powi (e + 1)" "- 1022 \<le> e"
    and "\<bar>x / 2 powi (e - 52) - of_int m\<bar> < 1 / 2"
  shows "roundDouble x = of_int m * 2 powi (e - 52)"
proof -
  have pos: "0 < x" using assms(1) zero_less_power_int [of "2::rat" e] by linarith
  have be: "binaryExponent x = e" by (rule binaryExponent_unique [OF assms(1,2)])
  have q: "quantum x = 2 powi (e - 52)" using assms(3) by (simp add: quantum_def be)
  have "roundHalfEven (x / quantum x) = m" unfolding q by (rule roundHalfEven_unique [OF assms(4)])
  then show ?thesis using pos by (simp add: roundDouble_def roundPositive_def q)
qed

lemma roundDouble_at:
  assumes "2 powi e \<le> x" "x < 2 powi (e + 1)" "- 1022 \<le> e"
    and "roundHalfEven (x / 2 powi (e - 52)) = m"
  shows "roundDouble x = of_int m * 2 powi (e - 52)"
proof -
  have pos: "0 < x" using assms(1) zero_less_power_int [of "2::rat" e] by linarith
  have be: "binaryExponent x = e" by (rule binaryExponent_unique [OF assms(1,2)])
  have q: "quantum x = 2 powi (e - 52)" using assms(3) by (simp add: quantum_def be)
  show ?thesis using pos assms(4) by (simp add: roundDouble_def roundPositive_def q)
qed

lemma roundHalfEven_tie: "roundHalfEven (of_int k + 1 / 2) = (if even k then k else k + 1)"
proof -
  have "\<lfloor>rat_of_int k + 1 / 2\<rfloor> = k" by (rule floor_unique) simp_all
  then show ?thesis by (simp add: roundHalfEven_def)
qed

section \<open>Properties of the number and string primitives\<close>














lemma digit_not_special:
  "is_digit c \<Longrightarrow> c \<noteq> CHR ''I'' \<and> c \<noteq> CHR ''-'' \<and> c \<noteq> CHR ''+'' \<and> \<not> is_space c"
  by (auto simp: is_digit_def is_space_def)








lemma parseFloat_digits:
  assumes "list_all is_digit xs" "xs \<noteq> []"
  shows "parseFloat (xs @ ys) = unsigned_literal (xs @ ys)"
proof -
  obtain a as where xs: "xs = a # as" using assms(2) by (cases xs) auto
  with assms(1) have "is_digit a" by simp
  then show ?thesis
    using digit_not_special [of a] by (simp add: parseFloat_def xs)
qed

lemma parseFloat_minus: "parseFloat (CHR ''-'' # u) = js_neg (unsigned_literal u)"
  by (simp add: parseFloat_def is_space_def)




subsection \<open>Evaluating the primitives on literals\<close>

lemma nat_floor_eval:
  fixes x :: rat
  assumes "rat_of_nat n \<le> x" "x < rat_of_nat n + 1"
  shows "nat \<lfloor>x\<rfloor> = n"
proof -
  have "\<lfloor>x\<rfloor> = int n"
    by (rule floor_unique) (use assms in simp_all)
  then show ?thesis by simp
qed

lemma fixed_digits_eval:
  assumes "rat_of_nat n \<le> x * 10 ^ f + 1 / 2" "x * 10 ^ f + 1 / 2 < rat_of_nat n + 1"
  shows "fixed_digits f x = insert_point f (show_nat n)"
  unfolding fixed_digits_def nat_floor_eval [OF assms] ..

lemma digit_char_0: "digit_char 0 = CHR ''0''" by code_simp
lemma digit_char_1: "digit_char 1 = CHR ''1''" by code_simp
lemma digit_char_2: "digit_char 2 = CHR ''2''" by code_simp
lemma digit_char_3: "digit_char 3 = CHR ''3''" by code_simp
lemma digit_char_4: "digit_char 4 = CHR ''4''" by code_simp
lemma digit_char_5: "digit_char 5 = CHR ''5''" by code_simp
lemma digit_char_6: "digit_char 6 = CHR ''6''" by code_simp
lemma digit_char_7: "digit_char 7 = CHR ''7''" by code_simp
lemma digit_char_8: "digit_char 8 = CHR ''8''" by code_simp
lemma digit_char_9: "digit_char 9 = CHR ''9''" by code_simp

lemma digit_char_Suc_0: "digit_char (Suc 0) = CHR ''1''"
  using digit_char_1 by simp

lemmas digit_char_eval =
  digit_char_Suc_0 digit_char_0 digit_char_1 digit_char_2 digit_char_3 digit_char_4
  digit_char_5 digit_char_6 digit_char_7 digit_char_8 digit_char_9

lemmas parse_simps =
  parseFloat_def unsigned_literal_def is_space_def is_digit_def digits_val_def
  digit_val_def exponent_part_def pow10_def

lemmas parseInt_simps =
  parseInt_def unsigned_int_def is_space_def is_digit_def digits_val_def digit_val_def

lemma toUpperCase_BTCUSDT: "toUpperCase ''BTCUSDT'' = ''BTCUSDT''"
  by code_simp

lemma rules_BTCUSDT:
  "getSymbolRules ''BTCUSDT'' =
     \<lparr>minQty = roundDouble (1 / 1000), priceDecimals = 1, qtyDecimals = 3\<rparr>"
  by (simp add: getSymbolRules_def toUpperCase_BTCUSDT TRADING_RULES_def)

lemma parseFloat_90000: "parseFloat ''90000'' = Fin 90000"
  by (simp add: parse_simps number_simps)

lemma parseFloat_100000: "parseFloat ''100000'' = Fin 100000"
  by (simp add: parse_simps number_simps)

lemma parseFloat_95000: "parseFloat ''95000'' = Fin 95000"
  by (simp add: parse_simps number_simps)

lemma parseFloat_abc: "parseFloat ''abc'' = NaN"
  by (simp add: parse_simps)

lemma parseFloat_0_001: "parseFloat ''0.001'' = Fin (roundDouble (1 / 1000))"
  by (simp add: parse_simps number_simps)

lemma parseFloat_0_002: "parseFloat ''0.002'' = Fin (roundDouble (1 / 500))"
  by (simp add: parse_simps number_simps)

lemma roundDouble_quantities: "\<not> roundDouble (1 / 500) < roundDouble (1 / 1000)"
  using roundDouble_mono [of "1 / 1000" "1 / 500"] by simp

text \<open>Bounds on the doubles of some literals, from doubles next to them.\<close>

lemma roundDouble_tenth: "1 / 16 \<le> roundDouble (1 / 10)" "roundDouble (1 / 10) \<le> 1 / 8"
proof -
  have "roundDouble (rat_of_int 1 / 2 ^ 4) = rat_of_int 1 / 2 ^ 4"
    by (rule roundDouble_dyadic) simp_all
  then have a: "roundDouble (1 / 16) = 1 / 16" by simp
  have "roundDouble (rat_of_int 1 / 2 ^ 3) = rat_of_int 1 / 2 ^ 3"
    by (rule roundDouble_dyadic) simp_all
  then have b: "roundDouble (1 / 8) = 1 / 8" by simp
  show "1 / 16 \<le> roundDouble (1 / 10)" by (rule roundDouble_ge [OF _ a]) simp
  show "roundDouble (1 / 10) \<le> 1 / 8" by (rule roundDouble_le [OF _ b]) simp
qed

lemma countDecimals_literals:
  "countDecimals ''90000'' = 0" "countDecimals ''100000'' = 0" "countDecimals ''abc'' = 0"
  "countDecimals ''0.001'' = 3" "countDecimals ''1'' = 0" "countDecimals ''1.5'' = 1"
  by (simp_all add: countDecimals_def)

lemma show_nat_timestamp: "show_nat 1700000000000 = ''1700000000000''"
  by (simp add: show_nat.simps digit_char_eval)

section \<open>The validator\<close>

lemma validatePrice_MARKET: "type order = MARKET \<Longrightarrow> validatePrice rules order = None"
  by (simp add: validatePrice_def)

lemma validateStopPrice_MARKET: "type order = MARKET \<Longrightarrow> validateStopPrice rules order = None"
  by (simp add: validateStopPrice_def)

text \<open>
  C10. For a MARKET order the verdict of \<open>validateOrderInput\<close> does not depend on the
  fields \<open>price\<close> and \<open>stopPrice\<close>: two MARKET requests that differ at most in these
  two fields get the same result, whatever the fields hold.
\<close>

theorem market_validation_ignores_prices:
  assumes "type order = MARKET"
  shows "validateOrderInput (order\<lparr>price := p, stopPrice := sp\<rparr>) = validateOrderInput order"
  using assms by (simp add: validateOrderInput_def validatePrice_def validateStopPrice_def Let_def)

theorem market_validation_ignores_prices_witness:
  "type \<lparr>symbol = ''BTCUSDT'', side = BUY, type = MARKET, quantity = ''0.002'',
         price = None, stopPrice = None, timeInForce = None\<rparr> = MARKET
   \<and> validateOrderInput
        (\<lparr>symbol = ''BTCUSDT'', side = BUY, type = MARKET, quantity = ''0.002'',
          price = None, stopPrice = None, timeInForce = None\<rparr>
         \<lparr>price := Some ''12..x'', stopPrice := Some ''-1''\<rparr>)
     = validateOrderInput
         \<lparr>symbol = ''BTCUSDT'', side = BUY, type = MARKET, quantity = ''0.002'',
          price = None, stopPrice = None, timeInForce = None\<rparr>"
  using market_validation_ignores_prices
    [where order = "\<lparr>symbol = ''BTCUSDT'', side = BUY, type = MARKET, quantity = ''0.002'',
          price = None, stopPrice = None, timeInForce = None\<rparr>"
       and p = "Some ''12..x''" and sp = "Some ''-1''"]
  by simp

text \<open>
  A malformed price is accepted on a MARKET order and rejected on a LIMIT order.
\<close>

lemma market_malformed_price_accepted:
  "validateOrderInput
     \<lparr>symbol = ''BTCUSDT'', side = BUY, type = MARKET, quantity = ''0.002'',
      price = Some ''x12'', stopPrice = Some ''-1'', timeInForce = None\<rparr> = None"
  by (simp add: validateOrderInput_def validatePrice_def validateStopPrice_def rules_BTCUSDT
      truthy_def countDecimals_def parseFloat_0_002 roundDouble_quantities)

lemma limit_malformed_price_rejected:
  "validateOrderInput
     \<lparr>symbol = ''BTCUSDT'', side = BUY, type = LIMIT, quantity = ''0.002'',
      price = Some ''x12'', stopPrice = None, timeInForce = None\<rparr> = Some PriceRequired"
proof -
  have "parseFloat ''x12'' = NaN" by (simp add: parse_simps)
  then show ?thesis
    by (simp add: validateOrderInput_def validatePrice_def validateStopPrice_def rules_BTCUSDT
        truthy_def truthy_opt_def parseFloat_opt_def countDecimals_def parseFloat_0_002
        roundDouble_quantities)
qed

text \<open>
  C3. The claim: a grid input whose quantity is present but not numeric is rejected by
  \<open>validateGridInput\<close>. The code has no \<open>isNaN\<close> test on the grid quantity, and
  \<open>NaN < minQty\<close> is false: the quantity \<open>abc\<close> is accepted.
\<close>

theorem validateGridInput_accepts_non_numeric_quantity:
  "isNaN (parseFloat ''abc'') \<and> validateGridInput ''BTCUSDT'' ''90000'' ''100000'' ''abc'' = None"
  by (simp add: validateGridInput_def rules_BTCUSDT parseFloat_90000 parseFloat_100000
      parseFloat_abc countDecimals_literals truthy_def js_ge_def)

theorem validateGridInput_accepts_non_numeric_quantity_witness:
  "validateGridInput ''BTCUSDT'' ''90000'' ''100000'' ''abc'' = None"
  using validateGridInput_accepts_non_numeric_quantity by simp

text \<open>The single-order validator does test \<open>isNaN\<close> and rejects the same quantity.\<close>

lemma validateOrderInput_rejects_non_numeric_quantity:
  "validateOrderInput
     \<lparr>symbol = ''BTCUSDT'', side = BUY, type = MARKET, quantity = ''abc'',
      price = None, stopPrice = None, timeInForce = None\<rparr> = Some QuantityRequired"
  by (simp add: validateOrderInput_def parseFloat_abc truthy_def)

section \<open>The grid generator\<close>

subsection \<open>Rounding to a number of decimals\<close>


subsection \<open>The loop\<close>


subsection \<open>Order on numbers\<close>

lemma js_le_refl: "x \<noteq> NaN \<Longrightarrow> js_le x x"
  by (cases x) simp_all








subsection \<open>The step and the levels\<close>





subsection \<open>Printed prices\<close>




subsection \<open>The test that drops a level\<close>


lemma pow10_double:
  assumes "f \<le> 5"
  shows "toNumber (10 ^ f) = Fin (10 ^ f)"
proof -
  have "\<bar>10 ^ f :: int\<bar> < 2 ^ 53"
  proof -
    have "(10::int) ^ f \<le> 10 ^ 5" by (rule power_increasing) (use assms in simp_all)
    then show ?thesis by simp
  qed
  then have "toNumber (rat_of_int (10 ^ f)) = Fin (rat_of_int (10 ^ f))" by (rule toNumber_of_int)
  then show ?thesis by simp
qed

lemma unit_number:
  assumes "f \<le> 5"
  shows "js_div (Fin 1) (toNumber (10 ^ f)) = Fin (roundDouble (1 / 10 ^ f))"
proof -
  have "\<bar>1 / 10 ^ f :: rat\<bar> \<le> 2 ^ 53"
  proof -
    have "\<bar>1 / 10 ^ f :: rat\<bar> = 1 / 10 ^ f" by simp
    also have "\<dots> \<le> 1" by simp
    also have "(1::rat) \<le> 2 ^ 53" by simp
    finally show ?thesis .
  qed
  then have "toNumber (1 / 10 ^ f) = Fin (roundDouble (1 / 10 ^ f))" by (rule toNumber_small)
  then show ?thesis by (simp add: pow10_double [OF assms])
qed








subsection \<open>The grid of the form's default values\<close>

lemma toFixed_1_90000: "toFixed 1 (Fin 90000) = ''90000.0''"
proof -
  have "fixed_digits 1 90000 = insert_point 1 (show_nat 900000)"
    by (rule fixed_digits_eval) simp_all
  then show ?thesis
    by (simp add: insert_point_def show_nat.simps digit_char_eval)
qed

lemma toFixed_1_92500: "toFixed 1 (Fin 92500) = ''92500.0''"
proof -
  have "fixed_digits 1 92500 = insert_point 1 (show_nat 925000)"
    by (rule fixed_digits_eval) simp_all
  then show ?thesis
    by (simp add: insert_point_def show_nat.simps digit_char_eval)
qed

lemma toFixed_1_97500: "toFixed 1 (Fin 97500) = ''97500.0''"
proof -
  have "fixed_digits 1 97500 = insert_point 1 (show_nat 975000)"
    by (rule fixed_digits_eval) simp_all
  then show ?thesis
    by (simp add: insert_point_def show_nat.simps digit_char_eval)
qed

lemma toFixed_1_100000: "toFixed 1 (Fin 100000) = ''100000.0''"
proof -
  have "fixed_digits 1 100000 = insert_point 1 (show_nat 1000000)"
    by (rule fixed_digits_eval) simp_all
  then show ?thesis
    by (simp add: insert_point_def show_nat.simps digit_char_eval)
qed

lemma parseInt_5: "parseInt ''5'' = Some 5"
  by (simp add: parseInt_simps)

text \<open>One unit of the price precision 1, as the loop computes it.\<close>

lemma unit_tenth: "js_div (Fin 1) (toNumber (10 ^ 1)) = Fin (roundDouble (1 / 10))"
  using unit_number [of 1] by simp

lemma tenth_cmp:
  "0 < roundDouble (1 / 10)" "\<not> 2500 < roundDouble (1 / 10)" "\<not> 5000 < roundDouble (1 / 10)"
  "\<not> 94000 < roundDouble (1 / 10)"
  using roundDouble_tenth by simp_all

lemma gridLoop_90000_100000:
  assumes "priceDecimals rules = 1"
  shows "gridLoop symb qty rules (Fin 90000) (Fin 2500) (Fin 95000) 5 0 [] =
     [gridOrder symb qty rules (Fin 90000) (Fin 95000),
      gridOrder symb qty rules (Fin 92500) (Fin 95000),
      gridOrder symb qty rules (Fin 97500) (Fin 95000),
      gridOrder symb qty rules (Fin 100000) (Fin 95000)]"
  using unit_tenth
  by (simp add: gridLoop.simps priceLevel_def nearReference_def js_sub_def assms number_simps
      roundDouble_minus tenth_cmp)

lemma generateGrid_90000_100000:
  assumes valid: "validateGridInput symb ''90000'' ''100000'' qty = None"
    and prec: "priceDecimals (getSymbolRules symb) = 1"
  shows "generateGrid symb ''90000'' ''100000'' ''5'' qty ''95000'' =
     Inr [\<lparr>symbol = symb, side = BUY, type = LIMIT, quantity = qty,
           price = Some ''90000.0'', stopPrice = None, timeInForce = Some ''GTC''\<rparr>,
          \<lparr>symbol = symb, side = BUY, type = LIMIT, quantity = qty,
           price = Some ''92500.0'', stopPrice = None, timeInForce = Some ''GTC''\<rparr>,
          \<lparr>symbol = symb, side = SELL, type = LIMIT, quantity = qty,
           price = Some ''97500.0'', stopPrice = None, timeInForce = Some ''GTC''\<rparr>,
          \<lparr>symbol = symb, side = SELL, type = LIMIT, quantity = qty,
           price = Some ''100000.0'', stopPrice = None, timeInForce = Some ''GTC''\<rparr>]"
proof -
  have loop: "generateGrid symb ''90000'' ''100000'' ''5'' qty ''95000'' =
      Inr (gridLoop symb qty (getSymbolRules symb) (Fin 90000) (Fin 2500) (Fin 95000) 5 0 [])"
    by (simp add: generateGrid_def valid parseFloat_90000 parseFloat_100000 parseFloat_95000
        parseInt_5 js_sub_def number_simps)
  show ?thesis
    unfolding loop gridLoop_90000_100000 [OF prec] gridOrder_def prec
      toFixed_1_90000 toFixed_1_92500 toFixed_1_97500 toFixed_1_100000
    by simp
qed

lemma validateGridInput_default:
  "validateGridInput ''BTCUSDT'' ''90000'' ''100000'' ''0.001'' = None"
  by (simp add: validateGridInput_def rules_BTCUSDT parseFloat_90000 parseFloat_100000
      parseFloat_0_001 countDecimals_literals truthy_def js_ge_def)





text \<open>
  C5. For minPrice 90000, maxPrice 100000, five levels, reference 95000 and a price
  precision of one decimal, the generator returns four orders in ascending order: BUY at
  90000 and 92500, SELL at 97500 and 100000; the level 95000 is dropped. This holds for
  every symbol with that precision and every quantity the validator accepts.
\<close>

theorem generateGrid_example:
  assumes "validateGridInput symb ''90000'' ''100000'' qty = None"
    and "priceDecimals (getSymbolRules symb) = 1"
  shows "generateGrid symb ''90000'' ''100000'' ''5'' qty ''95000'' =
     Inr [\<lparr>symbol = symb, side = BUY, type = LIMIT, quantity = qty,
           price = Some ''90000.0'', stopPrice = None, timeInForce = Some ''GTC''\<rparr>,
          \<lparr>symbol = symb, side = BUY, type = LIMIT, quantity = qty,
           price = Some ''92500.0'', stopPrice = None, timeInForce = Some ''GTC''\<rparr>,
          \<lparr>symbol = symb, side = SELL, type = LIMIT, quantity = qty,
           price = Some ''97500.0'', stopPrice = None, timeInForce = Some ''GTC''\<rparr>,
          \<lparr>symbol = symb, side = SELL, type = LIMIT, quantity = qty,
           price = Some ''100000.0'', stopPrice = None, timeInForce = Some ''GTC''\<rparr>]"
  using assms by (rule generateGrid_90000_100000)

theorem generateGrid_example_witness:
  "generateGrid ''BTCUSDT'' ''90000'' ''100000'' ''5'' ''0.001'' ''95000'' =
     Inr [\<lparr>symbol = ''BTCUSDT'', side = BUY, type = LIMIT, quantity = ''0.001'',
           price = Some ''90000.0'', stopPrice = None, timeInForce = Some ''GTC''\<rparr>,
          \<lparr>symbol = ''BTCUSDT'', side = BUY, type = LIMIT, quantity = ''0.001'',
           price = Some ''92500.0'', stopPrice = None, timeInForce = Some ''GTC''\<rparr>,
          \<lparr>symbol = ''BTCUSDT'', side = SELL, type = LIMIT, quantity = ''0.001'',
           price = Some ''97500.0'', stopPrice = None, timeInForce = Some ''GTC''\<rparr>,
          \<lparr>symbol = ''BTCUSDT'', side = SELL, type = LIMIT, quantity = ''0.001'',
           price = Some ''100000.0'', stopPrice = None, timeInForce = Some ''GTC''\<rparr>]"
proof -
  have "priceDecimals (getSymbolRules ''BTCUSDT'') = 1"
    by (simp add: rules_BTCUSDT)
  with validateGridInput_default show ?thesis
    by (rule generateGrid_example)
qed



subsection \<open>A grid with levels closer together than the price precision\<close>












subsection \<open>A grid on which rounding decides the count\<close>

text \<open>
  For the bounds 0.1 and 0.3, two levels and the reference 0.2 at one decimal of precision,
  the doubles decide: the level 0.3 is at the distance 0.09999999999999998 of the reference,
  below the unit, and is dropped; the level 0.1 is at the distance of the unit itself and
  stays. One order is left, at 0.1.
\<close>

lemma roundDouble_0_1: "roundDouble (1 / 10) = 3602879701896397 / 36028797018963968"
  using roundDouble_eval [of "- 4" "1 / 10" 7205759403792794] by simp

lemma roundDouble_0_2: "roundDouble (1 / 5) = 3602879701896397 / 18014398509481984"
  using roundDouble_eval [of "- 3" "1 / 5" 7205759403792794] by simp

lemma roundDouble_0_3: "roundDouble (3 / 10) = 5404319552844595 / 18014398509481984"
  using roundDouble_eval [of "- 2" "3 / 10" 5404319552844595] by simp


lemma doubles_55:
  "roundDouble (3602879701896397 / 36028797018963968) = 3602879701896397 / 36028797018963968"
  "roundDouble (7205759403792793 / 36028797018963968) = 7205759403792793 / 36028797018963968"
  "roundDouble (5404319552844595 / 18014398509481984) = 5404319552844595 / 18014398509481984"
  "roundDouble (3602879701896397 / 18014398509481984) = 3602879701896397 / 18014398509481984"
  "roundDouble (900719925474099 / 9007199254740992) = 900719925474099 / 9007199254740992"
  using roundDouble_dyadic [of 3602879701896397 55] roundDouble_dyadic [of 7205759403792793 55]
    roundDouble_dyadic [of 5404319552844595 54] roundDouble_dyadic [of 3602879701896397 54]
    roundDouble_dyadic [of 900719925474099 53]
  by simp_all

lemma parseFloat_tenths:
  "parseFloat ''0.1'' = Fin (3602879701896397 / 36028797018963968)"
  "parseFloat ''0.2'' = Fin (3602879701896397 / 18014398509481984)"
  "parseFloat ''0.3'' = Fin (5404319552844595 / 18014398509481984)"
  by (simp_all add: parse_simps number_simps roundDouble_0_1 roundDouble_0_2 roundDouble_0_3)

lemma countDecimals_tenths: "countDecimals ''0.1'' = 1" "countDecimals ''0.3'' = 1"
  by (simp_all add: countDecimals_def)

lemma parseInt_2: "parseInt ''2'' = Some 2"
  by (simp add: parseInt_simps)

lemma validateGridInput_tenths:
  "validateGridInput ''BTCUSDT'' ''0.1'' ''0.3'' ''0.001'' = None"
  by (simp add: validateGridInput_def rules_BTCUSDT parseFloat_tenths
      parseFloat_0_001 countDecimals_literals countDecimals_tenths truthy_def js_ge_def)

lemma show_nat_1: "show_nat 1 = ''1''" "show_nat (Suc 0) = ''1''"
  by (simp_all add: show_nat.simps digit_char_eval)

lemma toFixed_1_tenth: "toFixed 1 (Fin (3602879701896397 / 36028797018963968)) = ''0.1''"
proof -
  have "fixed_digits 1 (3602879701896397 / 36028797018963968) = insert_point 1 (show_nat 1)"
    by (rule fixed_digits_eval) simp_all
  then show ?thesis by (simp add: insert_point_def show_nat_1)
qed

lemma tenthsGrid_loop:
  "generateGrid ''BTCUSDT'' ''0.1'' ''0.3'' ''2'' ''0.001'' ''0.2'' =
     Inr (gridLoop ''BTCUSDT'' ''0.001'' (getSymbolRules ''BTCUSDT'')
            (Fin (3602879701896397 / 36028797018963968))
            (Fin (7205759403792793 / 36028797018963968))
            (Fin (3602879701896397 / 18014398509481984)) 2 0 [])"
  by (simp add: generateGrid_def validateGridInput_tenths parseFloat_tenths parseInt_2
      js_sub_def number_simps doubles_55)

lemma tenthsGrid_run:
  assumes "priceDecimals rules = 1"
  shows "gridLoop symb qty rules (Fin (3602879701896397 / 36028797018963968))
            (Fin (7205759403792793 / 36028797018963968))
            (Fin (3602879701896397 / 18014398509481984)) 2 0 [] =
     [gridOrder symb qty rules (Fin (3602879701896397 / 36028797018963968))
        (Fin (3602879701896397 / 18014398509481984))]"
  using unit_tenth
  by (simp add: gridLoop.simps priceLevel_def nearReference_def js_sub_def assms number_simps
      roundDouble_minus doubles_55 roundDouble_0_1)

lemma tenthsGrid_orders:
  "generateGrid ''BTCUSDT'' ''0.1'' ''0.3'' ''2'' ''0.001'' ''0.2'' =
     Inr [\<lparr>symbol = ''BTCUSDT'', side = BUY, type = LIMIT, quantity = ''0.001'',
           price = Some ''0.1'', stopPrice = None, timeInForce = Some ''GTC''\<rparr>]"
proof -
  have prec: "priceDecimals (getSymbolRules ''BTCUSDT'') = 1" by (simp add: rules_BTCUSDT)
  show ?thesis
    unfolding tenthsGrid_loop tenthsGrid_run [OF prec] gridOrder_def prec toFixed_1_tenth
    by simp
qed

subsection \<open>A minimum written with an exponent\<close>

text \<open>
  The lower bound needs a minimum that printing leaves unchanged: the validator counts the
  decimals of the text, so it accepts the minimum \<open>4e-2\<close> at one decimal of precision,
  and the lowest level 0.04 is printed as 0.0, below the minimum.
\<close>

lemma roundDouble_0_04: "roundDouble (1 / 25) = 5764607523034235 / 144115188075855872"
  using roundDouble_eval [of "- 5" "1 / 25" 5764607523034235] by simp

lemma doubles_exponent:
  "roundDouble (5764607523034235 / 144115188075855872) = 5764607523034235 / 144115188075855872"
  "roundDouble (282465768628677509 / 144115188075855872) = 2206763817411543 / 1125899906842624"
  "roundDouble (2206763817411543 / 1125899906842624) = 2206763817411543 / 1125899906842624"
  "roundDouble (288230376151711739 / 144115188075855872) = 2"
  using roundDouble_dyadic [of 5764607523034235 57]
    roundDouble_eval [of 0 "282465768628677509 / 144115188075855872" 8827055269646172]
    roundDouble_dyadic [of 2206763817411543 50]
    roundDouble_eval [of 0 "288230376151711739 / 144115188075855872" 9007199254740992]
  by simp_all

lemma parseFloat_4e_2: "parseFloat ''4e-2'' = Fin (5764607523034235 / 144115188075855872)"
  by (simp add: parse_simps number_simps roundDouble_0_04)

lemma parseFloat_2: "parseFloat ''2'' = Fin 2"
  by (simp add: parse_simps number_simps)

lemma validateGridInput_exponent:
  "validateGridInput ''BTCUSDT'' ''4e-2'' ''2'' ''0.001'' = None"
  by (simp add: validateGridInput_def rules_BTCUSDT parseFloat_4e_2 parseFloat_2
      parseFloat_0_001 countDecimals_def truthy_def js_ge_def)

lemma show_nat_0: "show_nat 0 = ''0''"
  by (simp add: show_nat.simps digit_char_eval)

lemma show_nat_20: "show_nat 20 = ''20''"
  by (simp add: show_nat.simps digit_char_eval)

lemma toFixed_1_exponent:
  "toFixed 1 (Fin (5764607523034235 / 144115188075855872)) = ''0.0''" "toFixed 1 (Fin 2) = ''2.0''"
proof -
  have "fixed_digits 1 (5764607523034235 / 144115188075855872) = insert_point 1 (show_nat 0)"
    by (rule fixed_digits_eval) simp_all
  then show "toFixed 1 (Fin (5764607523034235 / 144115188075855872)) = ''0.0''"
    by (simp add: insert_point_def show_nat_0)
  have "fixed_digits 1 2 = insert_point 1 (show_nat 20)"
    by (rule fixed_digits_eval) simp_all
  then show "toFixed 1 (Fin 2) = ''2.0''"
    by (simp add: insert_point_def show_nat_20)
qed

lemma generateGrid_below_minimum:
  "map orderPrice (gridOrders (generateGrid ''BTCUSDT'' ''4e-2'' ''2'' ''2'' ''0.001'' ''95000''))
     = [Fin 0, Fin 2]
   \<and> \<not> js_le (parseFloat ''4e-2'') (Fin 0)"
proof -
  define rules where "rules = getSymbolRules ''BTCUSDT''"
  have prec: "priceDecimals rules = 1" by (simp add: rules_def rules_BTCUSDT)
  have loop: "generateGrid ''BTCUSDT'' ''4e-2'' ''2'' ''2'' ''0.001'' ''95000'' =
      Inr (gridLoop ''BTCUSDT'' ''0.001'' rules (Fin (5764607523034235 / 144115188075855872))
             (Fin (2206763817411543 / 1125899906842624)) (Fin 95000) 2 0 [])"
    by (simp add: generateGrid_def validateGridInput_exponent parseFloat_4e_2 parseFloat_2
        parseFloat_95000 parseInt_2 js_sub_def rules_def number_simps doubles_exponent)
  have run: "gridLoop ''BTCUSDT'' ''0.001'' rules (Fin (5764607523034235 / 144115188075855872))
             (Fin (2206763817411543 / 1125899906842624)) (Fin 95000) 2 0 [] =
     [gridOrder ''BTCUSDT'' ''0.001'' rules (Fin (5764607523034235 / 144115188075855872)) (Fin 95000),
      gridOrder ''BTCUSDT'' ''0.001'' rules (Fin 2) (Fin 95000)]"
    using unit_tenth roundDouble_tenth
      roundDouble_ge [of 94000 "95000 - 5764607523034235 / 144115188075855872"]
    by (simp add: gridLoop.simps priceLevel_def nearReference_def js_sub_def prec number_simps
        roundDouble_minus doubles_exponent)
  have p: "parseFloat ''0.0'' = Fin 0" "parseFloat ''2.0'' = Fin 2"
    by (simp_all add: parse_simps number_simps)
  show ?thesis
    unfolding loop run gridOrder_def prec toFixed_1_exponent
    by (simp add: gridOrders_def orderPrice_def parseFloat_opt_def p parseFloat_4e_2)
qed

subsection \<open>A grid whose last price is above the maximum\<close>

text \<open>
  For the bounds 11 and 6783971286115398 and four levels, the step 6783971286115387 / 3 is
  rounded to 2261323762038462.5, three steps are 6783971286115387.5, rounded to the even
  neighbour 6783971286115388, and the last level 11 + 6783971286115388 is one above the
  maximum: it is printed as 6783971286115399.0, although printing leaves both bounds
  unchanged.
\<close>

lemma roundHalfEven_three_steps: "roundHalfEven (13567942572230775 / 2) = 6783971286115388"
proof -
  have "(13567942572230775 / 2 :: rat) = of_int 6783971286115387 + 1 / 2" by simp
  then show ?thesis by (simp only: roundHalfEven_tie) simp
qed

lemma doubles_large:
  "roundDouble (6783971286115387 / 3) = 4522647524076925 / 2"
  "roundDouble (13567942572230775 / 2) = 6783971286115388"
  "roundDouble (4522647524076947 / 2) = 4522647524076947 / 2"
  using roundDouble_eval [of 51 "6783971286115387 / 3" 4522647524076925]
    roundDouble_at [of 52 "13567942572230775 / 2" 6783971286115388] roundHalfEven_three_steps
    roundDouble_dyadic [of 4522647524076947 1]
  by simp_all


lemma parseFloat_wide:
  "parseFloat ''11'' = Fin 11" "parseFloat ''6783971286115398'' = Fin 6783971286115398"
  "parseFloat ''6783971286115398.0'' = Fin 6783971286115398"
  "parseFloat ''6783971286115399.0'' = Fin 6783971286115399"
  by (simp_all add: parse_simps number_simps)

lemma countDecimals_wide: "countDecimals ''11'' = 0" "countDecimals ''6783971286115398'' = 0"
  by (simp_all add: countDecimals_def)

lemma parseInt_4: "parseInt ''4'' = Some 4"
  by (simp add: parseInt_simps)

lemma validateGridInput_wide:
  "validateGridInput ''BTCUSDT'' ''11'' ''6783971286115398'' ''0.001'' = None"
  by (simp add: validateGridInput_def rules_BTCUSDT parseFloat_wide
      parseFloat_0_001 countDecimals_literals countDecimals_wide truthy_def js_ge_def)

lemma show_nat_wide:
  "show_nat 110 = ''110''"
  "show_nat 22613237620384735 = ''22613237620384735''"
  "show_nat 45226475240769360 = ''45226475240769360''"
  "show_nat 67839712861153980 = ''67839712861153980''"
  "show_nat 67839712861153990 = ''67839712861153990''"
  by (simp_all add: show_nat.simps digit_char_eval)

lemma toFixed_1_wide:
  "toFixed 1 (Fin 11) = ''11.0''"
  "toFixed 1 (Fin (4522647524076947 / 2)) = ''2261323762038473.5''"
  "toFixed 1 (Fin 4522647524076936) = ''4522647524076936.0''"
  "toFixed 1 (Fin 6783971286115398) = ''6783971286115398.0''"
  "toFixed 1 (Fin 6783971286115399) = ''6783971286115399.0''"
proof -
  have "fixed_digits 1 11 = insert_point 1 (show_nat 110)"
    by (rule fixed_digits_eval) simp_all
  then show "toFixed 1 (Fin 11) = ''11.0''"
    by (simp add: insert_point_def show_nat_wide)
  have "fixed_digits 1 (4522647524076947 / 2) = insert_point 1 (show_nat 22613237620384735)"
    by (rule fixed_digits_eval) simp_all
  then show "toFixed 1 (Fin (4522647524076947 / 2)) = ''2261323762038473.5''"
    by (simp add: insert_point_def show_nat_wide)
  have "fixed_digits 1 4522647524076936 = insert_point 1 (show_nat 45226475240769360)"
    by (rule fixed_digits_eval) simp_all
  then show "toFixed 1 (Fin 4522647524076936) = ''4522647524076936.0''"
    by (simp add: insert_point_def show_nat_wide)
  have "fixed_digits 1 6783971286115398 = insert_point 1 (show_nat 67839712861153980)"
    by (rule fixed_digits_eval) simp_all
  then show "toFixed 1 (Fin 6783971286115398) = ''6783971286115398.0''"
    by (simp add: insert_point_def show_nat_wide)
  have "fixed_digits 1 6783971286115399 = insert_point 1 (show_nat 67839712861153990)"
    by (rule fixed_digits_eval) simp_all
  then show "toFixed 1 (Fin 6783971286115399) = ''6783971286115399.0''"
    by (simp add: insert_point_def show_nat_wide)
qed

lemma wideGrid_loop:
  "wideGrid =
     Inr (gridLoop ''BTCUSDT'' ''0.001'' (getSymbolRules ''BTCUSDT'') (Fin 11)
            (Fin (4522647524076925 / 2)) (Fin 95000) 4 0 [])"
  by (simp add: wideGrid_def generateGrid_def validateGridInput_wide parseFloat_wide
      parseFloat_95000 parseInt_4 js_sub_def number_simps doubles_large)

lemma wideGrid_run:
  assumes "priceDecimals rules = 1"
  shows "gridLoop symb qty rules (Fin 11) (Fin (4522647524076925 / 2)) (Fin 95000) 4 0 [] =
     [gridOrder symb qty rules (Fin 11) (Fin 95000),
      gridOrder symb qty rules (Fin (4522647524076947 / 2)) (Fin 95000),
      gridOrder symb qty rules (Fin 4522647524076936) (Fin 95000),
      gridOrder symb qty rules (Fin 6783971286115399) (Fin 95000)]"
  using unit_tenth roundDouble_tenth
  by (simp add: gridLoop.simps priceLevel_def nearReference_def js_sub_def assms number_simps
      roundDouble_minus roundDouble_binary_fractions doubles_large)

lemma wideGrid_orders:
  "wideGrid =
     Inr [\<lparr>symbol = ''BTCUSDT'', side = BUY, type = LIMIT, quantity = ''0.001'',
           price = Some ''11.0'', stopPrice = None, timeInForce = Some ''GTC''\<rparr>,
          \<lparr>symbol = ''BTCUSDT'', side = SELL, type = LIMIT, quantity = ''0.001'',
           price = Some ''2261323762038473.5'', stopPrice = None, timeInForce = Some ''GTC''\<rparr>,
          \<lparr>symbol = ''BTCUSDT'', side = SELL, type = LIMIT, quantity = ''0.001'',
           price = Some ''4522647524076936.0'', stopPrice = None, timeInForce = Some ''GTC''\<rparr>,
          \<lparr>symbol = ''BTCUSDT'', side = SELL, type = LIMIT, quantity = ''0.001'',
           price = Some ''6783971286115399.0'', stopPrice = None, timeInForce = Some ''GTC''\<rparr>]"
proof -
  have prec: "priceDecimals (getSymbolRules ''BTCUSDT'') = 1" by (simp add: rules_BTCUSDT)
  show ?thesis
    unfolding wideGrid_loop wideGrid_run [OF prec] gridOrder_def prec toFixed_1_wide
    by simp
qed

lemma wideGrid_above_maximum:
  "parseFloat (toFixed 1 (parseFloat ''6783971286115398'')) = parseFloat ''6783971286115398''
   \<and> price (last (gridOrders wideGrid)) = Some ''6783971286115399.0''
   \<and> js_lt (parseFloat ''6783971286115398'') (orderPrice (last (gridOrders wideGrid)))"
proof -
  have "parseFloat (toFixed 1 (parseFloat ''6783971286115398'')) = parseFloat ''6783971286115398''"
    unfolding parseFloat_wide(2) toFixed_1_wide(4) by (rule parseFloat_wide(3))
  then show ?thesis
    by (simp add: wideGrid_orders gridOrders_def orderPrice_def parseFloat_opt_def parseFloat_wide
        del: toFixed.simps)
qed

section \<open>The executor's effects\<close>

lemma mockPlaceOrder_eq:
  "\<exists>response. mockPlaceOrder e order tr = (Inr response, tr @ [Timeout 800])"
  by (simp add: mockPlaceOrder_def Let_def)

lemma signedRequest_trace:
  "snd (signedRequest e m creds params tr) =
     tr @ [Signed (apiSecret creds) (queryString params),
           Request \<lparr>httpMethod = m,
                    url = BASE_URL @ ''/fapi/v1/order'' @ ''?'' @ queryString params @ ''&signature=''
                          @ hmacSha256 e (apiSecret creds) (queryString params),
                    apiKeyHeader = apiKey creds\<rparr>]"
  by (simp add: signedRequest_def Let_def split: sum.splits)

lemma realPlaceOrder_trace:
  "snd (realPlaceOrder e order creds tr) = tr
   \<or> (\<exists>q r. snd (realPlaceOrder e order creds tr) = tr @ [Signed (apiSecret creds) q, Request r])"
  by (auto simp: realPlaceOrder_def Let_def signedRequest_trace split: sum.splits)

lemma attempted_append: "attempted (xs @ ys) = attempted xs @ attempted ys"
  by (induction xs rule: attempted.induct) simp_all

lemma outcomes_append: "outcomes (xs @ ys) = outcomes xs @ outcomes ys"
  by (induction xs rule: outcomes.induct) simp_all

text \<open>A call of \<open>placeOrder\<close> only appends to the trace, and what it appends holds no
  start and no settling of a submission.\<close>

lemma placeOrder_trace:
  "\<exists>ev. snd (placeOrder e demoMode order creds tr) = tr @ ev
        \<and> attempted ev = [] \<and> outcomes ev = []"
proof (cases demoMode)
  case True
  obtain response where "mockPlaceOrder e order tr = (Inr response, tr @ [Timeout 800])"
    using mockPlaceOrder_eq by blast
  then show ?thesis using True by (simp add: placeOrder_def)
next
  case False
  from realPlaceOrder_trace [of e order creds tr] show ?thesis
  proof
    assume "snd (realPlaceOrder e order creds tr) = tr"
    then show ?thesis using False by (simp add: placeOrder_def)
  next
    assume "\<exists>q r. snd (realPlaceOrder e order creds tr) = tr @ [Signed (apiSecret creds) q, Request r]"
    then obtain q r where "snd (realPlaceOrder e order creds tr) = tr @ [Signed (apiSecret creds) q, Request r]"
      by blast
    then show ?thesis using False by (simp add: placeOrder_def)
  qed
qed

lemma serialized_quiet:
  "attempted ev = [] \<Longrightarrow> outcomes ev = [] \<Longrightarrow> serialized p (ev @ es) = serialized p es"
  by (induction p ev rule: serialized.induct) simp_all

lemma throttled_quiet_no_wait:
  "attempted ev = [] \<Longrightarrow> outcomes ev = [] \<Longrightarrow> Timeout 200 \<notin> set ev
     \<Longrightarrow> throttled owed (ev @ es) = throttled owed es"
  by (induction owed ev rule: throttled.induct) simp_all

section \<open>The dispatcher\<close>

text \<open>What the loop appends to the trace, and its counters.\<close>

lemma gridSubmitLoop_trace:
  "\<exists>new. snd (snd (gridSubmitLoop e demoMode creds orders sc fc tr)) = tr @ new
     \<and> attempted new = orders
     \<and> length (outcomes new) = length orders
     \<and> serialized False new
     \<and> fst (gridSubmitLoop e demoMode creds orders sc fc tr) = sc + length (filter (\<lambda>b. b) (outcomes new))
     \<and> fst (snd (gridSubmitLoop e demoMode creds orders sc fc tr))
         = fc + length (filter Not (outcomes new))"
proof (induction orders arbitrary: sc fc tr)
  case Nil
  show ?case by simp
next
  case (Cons order rest)
  obtain ev where ev: "snd (placeOrder e demoMode order creds (tr @ [PlaceOrderCalled order]))
      = (tr @ [PlaceOrderCalled order]) @ ev" "attempted ev = []" "outcomes ev = []"
    using placeOrder_trace by blast
  obtain res tr1 where p: "placeOrder e demoMode order creds (tr @ [PlaceOrderCalled order]) = (res, tr1)"
    by (cases "placeOrder e demoMode order creds (tr @ [PlaceOrderCalled order])")
  have tr1: "tr1 = tr @ PlaceOrderCalled order # ev" using ev(1) p by simp
  show ?case
  proof (cases res)
    case (Inr response)
    define after where "after = [PlaceOrderSettled True,
        Log SUCCESS (''Grid Order Placed: '' @ side_string (side order) @ '' @ ''
                     @ string_of_opt (price order)), Timeout 200]"
    obtain new where new: "snd (snd (gridSubmitLoop e demoMode creds rest (sc + 1) fc (tr1 @ after)))
          = (tr1 @ after) @ new"
      "attempted new = rest" "length (outcomes new) = length rest" "serialized False new"
      "fst (gridSubmitLoop e demoMode creds rest (sc + 1) fc (tr1 @ after))
         = (sc + 1) + length (filter (\<lambda>b. b) (outcomes new))"
      "fst (snd (gridSubmitLoop e demoMode creds rest (sc + 1) fc (tr1 @ after)))
         = fc + length (filter Not (outcomes new))"
      using Cons.IH [of "sc + 1" fc "tr1 @ after"] by blast
    have step: "gridSubmitLoop e demoMode creds (order # rest) sc fc tr
        = gridSubmitLoop e demoMode creds rest (sc + 1) fc (tr1 @ after)"
      by (simp add: p Inr after_def)
    let ?new = "PlaceOrderCalled order # ev @ after @ new"
    have "snd (snd (gridSubmitLoop e demoMode creds (order # rest) sc fc tr)) = tr @ ?new"
      unfolding step new(1) by (simp add: tr1)
    moreover have "attempted ?new = order # rest"
      by (simp add: attempted_append ev(2) new(2) after_def)
    moreover have o: "outcomes ?new = True # outcomes new"
      by (simp add: outcomes_append ev(3) after_def)
    moreover have "serialized False ?new"
      using new(4) by (simp add: serialized_quiet [OF ev(2,3)] after_def)
    ultimately show ?thesis
      unfolding step new(5) new(6) by (intro exI [of _ ?new]) (simp add: new(3))
  next
    case (Inl err)
    define after where "after = [PlaceOrderSettled False,
        Log ERROR (''Grid Order Failed: '' @ string_of_opt (price order))]"
    obtain new where new: "snd (snd (gridSubmitLoop e demoMode creds rest sc (fc + 1) (tr1 @ after)))
          = (tr1 @ after) @ new"
      "attempted new = rest" "length (outcomes new) = length rest" "serialized False new"
      "fst (gridSubmitLoop e demoMode creds rest sc (fc + 1) (tr1 @ after))
         = sc + length (filter (\<lambda>b. b) (outcomes new))"
      "fst (snd (gridSubmitLoop e demoMode creds rest sc (fc + 1) (tr1 @ after)))
         = (fc + 1) + length (filter Not (outcomes new))"
      using Cons.IH [of sc "fc + 1" "tr1 @ after"] by blast
    have step: "gridSubmitLoop e demoMode creds (order # rest) sc fc tr
        = gridSubmitLoop e demoMode creds rest sc (fc + 1) (tr1 @ after)"
      by (simp add: p Inl after_def)
    let ?new = "PlaceOrderCalled order # ev @ after @ new"
    have "snd (snd (gridSubmitLoop e demoMode creds (order # rest) sc fc tr)) = tr @ ?new"
      unfolding step new(1) by (simp add: tr1)
    moreover have "attempted ?new = order # rest"
      by (simp add: attempted_append ev(2) new(2) after_def)
    moreover have o: "outcomes ?new = False # outcomes new"
      by (simp add: outcomes_append ev(3) after_def)
    moreover have "serialized False ?new"
      using new(4) by (simp add: serialized_quiet [OF ev(2,3)] after_def)
    ultimately show ?thesis
      unfolding step new(5) new(6) by (intro exI [of _ ?new]) (simp add: new(3))
  qed
qed

lemma serialized_append_quiet:
  "attempted post = [] \<Longrightarrow> outcomes post = [] \<Longrightarrow> serialized p (xs @ post) = serialized p xs"
proof (induction p xs rule: serialized.induct)
  case (1 pending)
  then show ?case using serialized_quiet [of post pending "[]"] by simp
qed simp_all

text \<open>
  C4. Whenever the batch is dispatched (simulated mode, or live mode with both
  credentials), and whatever the exchange answers: the two counters add up to the number of
  orders, every order is attempted exactly once and in input order, a submission starts only
  after the one before has settled, and each failure is counted without stopping the loop.
\<close>

theorem handleGridSubmit_attempts_all:
  assumes "demoMode \<or> (truthy key \<and> truthy secret)"
  shows "case handleGridSubmit e demoMode key secret orders tr of
           (None, tr') \<Rightarrow> False
         | (Some (successCount, failCount), tr') \<Rightarrow>
             successCount + failCount = length orders
           \<and> take (length tr) tr' = tr
           \<and> attempted (drop (length tr) tr') = orders
           \<and> serialized False (drop (length tr) tr')
           \<and> successCount = length (filter (\<lambda>b. b) (outcomes (drop (length tr) tr')))
           \<and> failCount = length (filter Not (outcomes (drop (length tr) tr')))"
proof -
  define pre where "pre = [SetIsLoading True,
      Log INFO (''Starting Grid Deployment: '' @ show_nat (length orders) @ '' orders generated'')]"
  define creds where "creds = \<lparr>apiKey = key, apiSecret = secret\<rparr>"
  obtain sc fc tr2 where loop: "gridSubmitLoop e demoMode creds orders 0 0 (tr @ pre) = (sc, fc, tr2)"
    by (cases "gridSubmitLoop e demoMode creds orders 0 0 (tr @ pre)") auto
  obtain new where new: "tr2 = (tr @ pre) @ new" "attempted new = orders"
    "length (outcomes new) = length orders" "serialized False new"
    "sc = length (filter (\<lambda>b. b) (outcomes new))" "fc = length (filter Not (outcomes new))"
    using gridSubmitLoop_trace [of e demoMode creds orders 0 0 "tr @ pre"] loop by auto
  define post where "post = [Log INFO (''Grid Deployment Complete. Success: '' @ show_nat sc
      @ '', Failed: '' @ show_nat fc), SetIsLoading False]"
  have res: "handleGridSubmit e demoMode key secret orders tr = (Some (sc, fc), tr2 @ post)"
    using assms loop
    by (auto simp: handleGridSubmit_def Let_def pre_def creds_def post_def)
  have suffix: "drop (length tr) (tr2 @ post) = pre @ new @ post"
    by (simp add: new(1))
  have sum: "sc + fc = length orders"
    using sum_length_filter_compl [of "\<lambda>b. b" "outcomes new"] new(3,5,6) by simp
  have att: "attempted (pre @ new @ post) = orders"
    by (simp add: attempted_append new(2) pre_def post_def)
  have out: "outcomes (pre @ new @ post) = outcomes new"
    by (simp add: outcomes_append pre_def post_def)
  have ser: "serialized False (pre @ new @ post)"
  proof -
    have "serialized False (new @ post)"
      using new(4) by (subst serialized_append_quiet) (simp_all add: post_def)
    then show ?thesis by (simp add: pre_def)
  qed
  show ?thesis
    unfolding res using sum att out ser new(5,6)
    by (simp add: suffix) (simp add: new(1))
qed

subsection \<open>A live run whose first order is rejected\<close>

lemmas run_simps =
  liveRun_def handleGridSubmit_def placeOrder_def realPlaceOrder_def orderTypeParams_def
  signedRequest_def rejectFirst_def buy90000_def buy92500_def truthy_def truthy_opt_def
  or_else_def Let_def outcomes_append

lemma liveRun_counters: "fst liveRun = Some (1, 1)"
  by (simp add: run_simps)

lemma liveRun_schedule:
  "schedule (snd liveRun) =
     [PlaceOrderCalled buy90000, PlaceOrderSettled False,
      PlaceOrderCalled buy92500, PlaceOrderSettled True, Timeout 200]"
  by (simp add: run_simps)

lemma liveRun_outcomes: "outcomes (snd liveRun) = [False, True]"
  by (simp add: run_simps)

lemma liveRun_not_throttled: "\<not> throttled False (snd liveRun)"
  by (simp add: run_simps)

subsection \<open>The inter-order delay\<close>

text \<open>When every submission succeeds, as in simulated mode, each one is followed by the
  wait of 200 ms.\<close>

lemma throttled_append_quiet:
  "attempted post = [] \<Longrightarrow> throttled owed (xs @ post) = throttled owed xs"
proof (induction owed xs rule: throttled.induct)
  case (1 owed)
  then show ?case by (induction owed post rule: throttled.induct) simp_all
qed simp_all

lemma gridSubmitLoop_demo_throttled:
  "\<exists>new. snd (snd (gridSubmitLoop e True creds orders sc fc tr)) = tr @ new
        \<and> throttled False new"
proof (induction orders arbitrary: sc fc tr)
  case Nil
  show ?case by simp
next
  case (Cons order rest)
  obtain response where m: "mockPlaceOrder e order (tr @ [PlaceOrderCalled order])
      = (Inr response, (tr @ [PlaceOrderCalled order]) @ [Timeout 800])"
    using mockPlaceOrder_eq by blast
  define after where "after = [PlaceOrderCalled order, Timeout 800, PlaceOrderSettled True,
        Log SUCCESS (''Grid Order Placed: '' @ side_string (side order) @ '' @ ''
                     @ string_of_opt (price order)), Timeout 200]"
  obtain new where new: "snd (snd (gridSubmitLoop e True creds rest (sc + 1) fc (tr @ after)))
        = (tr @ after) @ new" "throttled False new"
    using Cons.IH [of "sc + 1" fc "tr @ after"] by blast
  have step: "gridSubmitLoop e True creds (order # rest) sc fc tr
      = gridSubmitLoop e True creds rest (sc + 1) fc (tr @ after)"
    by (simp add: placeOrder_def m after_def)
  have "snd (snd (gridSubmitLoop e True creds (order # rest) sc fc tr)) = tr @ (after @ new)"
    unfolding step new(1) by simp
  moreover have "throttled False (after @ new)"
    using new(2) by (simp add: after_def)
  ultimately show ?case by blast
qed

lemma handleGridSubmit_demo_throttled:
  "throttled False (drop (length tr) (snd (handleGridSubmit e True key secret orders tr)))"
proof -
  define pre where "pre = [SetIsLoading True,
      Log INFO (''Starting Grid Deployment: '' @ show_nat (length orders) @ '' orders generated'')]"
  define creds where "creds = \<lparr>apiKey = key, apiSecret = secret\<rparr>"
  obtain sc fc tr2 where loop: "gridSubmitLoop e True creds orders 0 0 (tr @ pre) = (sc, fc, tr2)"
    by (cases "gridSubmitLoop e True creds orders 0 0 (tr @ pre)") auto
  obtain new where new: "tr2 = (tr @ pre) @ new" "throttled False new"
    using gridSubmitLoop_demo_throttled [of e creds orders 0 0 "tr @ pre"] loop by auto
  define post where "post = [Log INFO (''Grid Deployment Complete. Success: '' @ show_nat sc
      @ '', Failed: '' @ show_nat fc), SetIsLoading False]"
  have res: "snd (handleGridSubmit e True key secret orders tr) = tr2 @ post"
    using loop by (simp add: handleGridSubmit_def Let_def pre_def creds_def post_def)
  have "throttled False (new @ post)"
    using new(2) by (subst throttled_append_quiet) (simp_all add: post_def)
  then show ?thesis
    unfolding res new(1) by (simp add: pre_def)
qed

text \<open>
  C2. The claim: a 200 ms wait separates every two consecutive submissions, whether the
  first of them succeeded or failed. In the code the wait is inside the \<open>try\<close> block: when
  the exchange rejects the first of two orders, the second submission starts with no wait in
  between.
\<close>

theorem failed_submission_skips_delay:
  "schedule (snd liveRun) =
     [PlaceOrderCalled buy90000, PlaceOrderSettled False,
      PlaceOrderCalled buy92500, PlaceOrderSettled True, Timeout 200]
   \<and> \<not> throttled False (snd liveRun)"
  using liveRun_schedule liveRun_not_throttled by simp

theorem failed_submission_skips_delay_witness:
  "\<not> throttled False (snd liveRun)"
  using failed_submission_skips_delay by simp


theorem handleGridSubmit_attempts_all_witness:
  "fst liveRun = Some (1, 1)
   \<and> attempted (snd liveRun) = [buy90000, buy92500]
   \<and> serialized False (snd liveRun)"
proof -
  have guard: "False \<or> (truthy ''key'' \<and> truthy ''secret'')"
    by (simp add: truthy_def)
  obtain r tr' where run: "handleGridSubmit rejectFirst False ''key'' ''secret'' [buy90000, buy92500] [] = (r, tr')"
    by (cases "handleGridSubmit rejectFirst False ''key'' ''secret'' [buy90000, buy92500] []")
  have out: "outcomes tr' = [False, True]"
    using liveRun_outcomes run by (simp add: liveRun_def)
  from handleGridSubmit_attempts_all
    [OF guard, where e = rejectFirst and orders = "[buy90000, buy92500]" and tr = "[]"]
  show ?thesis
    unfolding liveRun_def run using out by (cases r) auto
qed

section \<open>The executor\<close>

text \<open>The upper case of a string is the one string that \<open>toUpperCase\<close> returns.\<close>

lemma capitalOf_iff: "capitalOf c u \<longleftrightarrow> u = upper_char c"
proof (cases "97 \<le> (of_char c :: nat) \<and> (of_char c :: nat) \<le> 122")
  case False
  then show ?thesis by (auto simp add: capitalOf_def upper_char_def)
next
  case True
  have "(of_char u :: nat) + 32 = of_char c \<longleftrightarrow> u = char_of ((of_char c :: nat) - 32)"
  proof
    assume "(of_char u :: nat) + 32 = of_char c"
    then have "(of_char c :: nat) - 32 = of_char u" by linarith
    then show "u = char_of ((of_char c :: nat) - 32)" by simp
  next
    assume u: "u = char_of ((of_char c :: nat) - 32)"
    have "(of_char c :: nat) - 32 < 256" using True by linarith
    then have "(of_char u :: nat) = of_char c - 32" unfolding u by simp
    then show "(of_char u :: nat) + 32 = of_char c" using True by linarith
  qed
  with True show ?thesis by (simp add: capitalOf_def upper_char_def)
qed

lemma upperCased_iff: "upperCased s u \<longleftrightarrow> u = toUpperCase s"
proof -
  have "list_all2 capitalOf s u \<longleftrightarrow> u = map upper_char s"
    by (induction s arbitrary: u) (auto simp add: list_all2_Cons1 capitalOf_iff)
  then show ?thesis by (simp add: upperCased_def toUpperCase_def)
qed

lemma toUpperCase_btcusdt: "toUpperCase ''btcusdt'' = ''BTCUSDT''"
  by code_simp

lemma isAscii_btcusdt: "isAscii ''btcusdt''"
  by code_simp

text \<open>
  C8. In simulated mode \<open>placeOrder\<close> never fails: for every order request it returns,
  after the 800 ms delay, a result with status NEW, executed quantity 0, as order id the
  integer part of a random number times \<open>10^9\<close>, a client order id made from the clock,
  and a symbol that, for a request whose symbol is ASCII, is the symbol of the request in
  upper case. (The case conversion of the model covers ASCII only.)
\<close>

theorem mock_submit_never_fails:
  "\<exists>response.
     placeOrder e True order creds tr = (Inr response, tr @ [Timeout 800])
     \<and> get_prop response ''status'' = Str ''NEW''
     \<and> get_prop response ''executedQty'' = Str ''0''
     \<and> get_prop response ''orderId''
         = Num (js_floor (js_mul (Fin (random e (tr @ [Timeout 800]))) (Fin 1000000000)))
     \<and> get_prop response ''clientOrderId'' = Str (''web_'' @ show_nat (now e (tr @ [Timeout 800])))
     \<and> (isAscii (symbol order)
        \<longrightarrow> (\<exists>echo. get_prop response ''symbol'' = Str echo \<and> upperCased (symbol order) echo))"
  by (simp add: placeOrder_def mockPlaceOrder_def Let_def get_prop_def upperCased_iff)

theorem mock_submit_never_fails_witness:
  "\<exists>response.
     placeOrder rejectFirst True buyLower \<lparr>apiKey = '''', apiSecret = ''''\<rparr> []
       = (Inr response, [Timeout 800])
     \<and> get_prop response ''status'' = Str ''NEW''
     \<and> get_prop response ''executedQty'' = Str ''0''
     \<and> get_prop response ''orderId'' = Num (Fin 500000000)
     \<and> get_prop response ''clientOrderId'' = Str ''web_1700000000000''
     \<and> get_prop response ''symbol'' = Str ''BTCUSDT''"
proof -
  have sy: "symbol buyLower = ''btcusdt''" by (simp add: buyLower_def)
  have rnd: "js_floor (js_mul (Fin (random rejectFirst ([] @ [Timeout 800]))) (Fin 1000000000))
      = Fin 500000000"
    by (simp add: rejectFirst_def number_simps)
  have clock: "show_nat (now rejectFirst ([] @ [Timeout 800])) = ''1700000000000''"
    by (simp add: rejectFirst_def show_nat_timestamp)
  from mock_submit_never_fails [of rejectFirst buyLower "\<lparr>apiKey = '''', apiSecret = ''''\<rparr>" "[]"]
  show ?thesis
    unfolding sy rnd clock upperCased_iff toUpperCase_btcusdt
    using isAscii_btcusdt by auto
qed

text \<open>
  C7. In live mode, when the API key or the API secret is empty, \<open>placeOrder\<close> and
  \<open>cancelOrder\<close> fail with the credential error and leave the trace as it was: nothing
  was signed and no request was issued. In simulated mode the credentials are not looked
  at: with the same credentials both calls succeed, and the result is the same for any
  other credentials.
\<close>

theorem missing_credentials_fail_before_any_call:
  assumes "\<not> truthy (apiKey creds) \<or> \<not> truthy (apiSecret creds)"
  shows "placeOrder e False order creds tr = (Inl (Error ''API Credentials missing''), tr)
       \<and> cancelOrder e False symb orderId creds tr = (Inl (Error ''API Credentials missing''), tr)
       \<and> (\<exists>response. placeOrder e True order creds tr = (Inr response, tr @ [Timeout 800]))
       \<and> (\<exists>response. cancelOrder e True symb orderId creds tr = (Inr response, tr @ [Timeout 600]))
       \<and> placeOrder e True order creds tr = placeOrder e True order creds' tr
       \<and> cancelOrder e True symb orderId creds tr = cancelOrder e True symb orderId creds' tr"
  using assms
  by (auto simp: placeOrder_def cancelOrder_def realPlaceOrder_def realCancelOrder_def
      mockPlaceOrder_def mockCancelOrder_def Let_def)

theorem missing_credentials_fail_before_any_call_witness:
  "placeOrder rejectFirst False buy90000 \<lparr>apiKey = ''key'', apiSecret = ''''\<rparr> []
     = (Inl (Error ''API Credentials missing''), [])
   \<and> cancelOrder rejectFirst False ''BTCUSDT'' ''42'' \<lparr>apiKey = ''key'', apiSecret = ''''\<rparr> []
     = (Inl (Error ''API Credentials missing''), [])
   \<and> (\<exists>response. placeOrder rejectFirst True buy90000 \<lparr>apiKey = ''key'', apiSecret = ''''\<rparr> []
         = (Inr response, [Timeout 800]))
   \<and> (\<exists>response. cancelOrder rejectFirst True ''BTCUSDT'' ''42'' \<lparr>apiKey = ''key'', apiSecret = ''''\<rparr> []
         = (Inr response, [Timeout 600]))"
proof -
  have "\<not> truthy (apiKey \<lparr>apiKey = ''key'', apiSecret = ''''\<rparr>)
      \<or> \<not> truthy (apiSecret \<lparr>apiKey = ''key'', apiSecret = ''''\<rparr>)"
    by (simp add: truthy_def)
  from missing_credentials_fail_before_any_call
    [OF this, where e = rejectFirst and order = buy90000 and tr = "[]"
       and symb = "''BTCUSDT''" and orderId = "''42''"]
  show ?thesis by simp
qed

lemma orderTypeParams_claimed:
  assumes "hasRequiredPrices order"
  shows "\<exists>ps. orderTypeParams order
             [(''symbol'', toUpperCase (symbol order)), (''side'', side_string (side order)),
              (''quantity'', quantity order), (''timestamp'', show_nat ts),
              (''recvWindow'', ''5000'')] = Inr ps
           \<and> queryString ps = claimedMessage order ts"
  using assms
  by (cases "type order")
     (simp_all add: orderTypeParams_def hasRequiredPrices_def queryString_def claimedMessage_def)

text \<open>
  C6. In live mode, for an order with credentials and the prices its type requires, the
  message handed to the signer is the \<open>key=value\<close> pairs joined by \<open>&\<close> in the order the
  parameters were assembled (symbol, side, quantity, timestamp, recvWindow, type, then the
  prices and timeInForce), not sorted by key; and the request is a POST whose query is that
  message followed by \<open>&signature=\<close> and the digest.
\<close>

theorem signed_message_in_insertion_order:
  assumes "truthy (apiKey creds)" and "truthy (apiSecret creds)" and "hasRequiredPrices order"
  shows "snd (placeOrder e False order creds tr) =
     tr @ [Signed (apiSecret creds) (claimedMessage order (now e tr)),
           Request \<lparr>httpMethod = POST,
                    url = BASE_URL @ ''/fapi/v1/order'' @ ''?'' @ claimedMessage order (now e tr)
                          @ ''&signature=''
                          @ hmacSha256 e (apiSecret creds) (claimedMessage order (now e tr)),
                    apiKeyHeader = apiKey creds\<rparr>]"
proof -
  obtain ps where ps: "orderTypeParams order
             [(''symbol'', toUpperCase (symbol order)), (''side'', side_string (side order)),
              (''quantity'', quantity order), (''timestamp'', show_nat (now e tr)),
              (''recvWindow'', ''5000'')] = Inr ps"
    "queryString ps = claimedMessage order (now e tr)"
    using orderTypeParams_claimed [OF assms(3)] by blast
  show ?thesis
    using assms(1,2)
    by (simp add: placeOrder_def realPlaceOrder_def Let_def ps signedRequest_trace)
qed

lemma claimedMessage_buy90000:
  "claimedMessage buy90000 1700000000000 =
     ''symbol=BTCUSDT&side=BUY&quantity=0.001&timestamp=1700000000000&recvWindow=5000&type=LIMIT&price=90000.0&timeInForce=GTC''"
  by (simp add: claimedMessage_def buy90000_def toUpperCase_BTCUSDT show_nat_timestamp)

theorem signed_message_in_insertion_order_witness:
  "snd (placeOrder rejectFirst False buy90000 \<lparr>apiKey = ''key'', apiSecret = ''secret''\<rparr> []) =
     [Signed ''secret''
        ''symbol=BTCUSDT&side=BUY&quantity=0.001&timestamp=1700000000000&recvWindow=5000&type=LIMIT&price=90000.0&timeInForce=GTC'',
      Request \<lparr>httpMethod = POST,
               url = ''https://testnet.binancefuture.com/fapi/v1/order?symbol=BTCUSDT&side=BUY&quantity=0.001&timestamp=1700000000000&recvWindow=5000&type=LIMIT&price=90000.0&timeInForce=GTC&signature=5f'',
               apiKeyHeader = ''key''\<rparr>]"
proof -
  have k: "truthy (apiKey \<lparr>apiKey = ''key'', apiSecret = ''secret''\<rparr>)"
    and s: "truthy (apiSecret \<lparr>apiKey = ''key'', apiSecret = ''secret''\<rparr>)"
    by (simp_all add: truthy_def)
  have p: "hasRequiredPrices buy90000"
    by (simp add: hasRequiredPrices_def buy90000_def truthy_opt_def)
  have n: "now rejectFirst [] = 1700000000000" and h: "hmacSha256 rejectFirst = (\<lambda>key message. ''5f'')"
    by (simp_all add: rejectFirst_def)
  show ?thesis
    unfolding signed_message_in_insertion_order [OF k s p, where e = rejectFirst and tr = "[]"]
      n h claimedMessage_buy90000
    by (simp add: BASE_URL_def)
qed

section \<open>Stream sessions\<close>

lemma wellFormed_subscribe: "wellFormed (connect throws (newStream a))"
  by (simp add: wellFormed_def connect_def newStream_def scheduleReconnect_def Let_def)

lemma wellFormed_scheduleReconnect:
  assumes "wellFormed st" "openSockets st = []" "pendingTimers st = []"
  shows "wellFormed (scheduleReconnect st)"
  using assms by (simp add: wellFormed_def scheduleReconnect_def)

lemma wellFormed_connect:
  assumes "wellFormed st" "openSockets st = []" "pendingTimers st = []"
  shows "wellFormed (connect throws st)"
  using assms
  by (auto simp: wellFormed_def connect_def scheduleReconnect_def Let_def list_all_iff)

lemma wellFormed_cleanup:
  assumes "wellFormed st"
  shows "wellFormed (cleanup st)" and "pendingTimers (cleanup st) = []"
  using assms
  by (auto simp: wellFormed_def cleanup_def Let_def list_all_iff split: option.splits)

lemma cleanup_fields: "\<not> active (cleanup st)" "attempts (cleanup st) = attempts st"
  by (simp_all add: cleanup_def Let_def split: option.splits)

lemma wellFormed_one_socket:
  assumes "wellFormed st" "s \<in> set (openSockets st)"
  shows "openSockets st = [s]" "pendingTimers st = []"
proof -
  from assms(2) have ne: "openSockets st \<noteq> []" by auto
  with assms(1) have len: "length (openSockets st) = 1" and t: "pendingTimers st = []"
    by (auto simp: wellFormed_def) (cases "openSockets st"; simp)+
  show "pendingTimers st = []" by (rule t)
  from len assms(2) show "openSockets st = [s]"
    by (cases "openSockets st") auto
qed

lemma wellFormed_one_timer:
  assumes "wellFormed st" "t \<in> fst ` set (pendingTimers st)"
  shows "pendingTimers st = [(t, RECONNECT_DELAY)]" "openSockets st = []"
proof -
  from assms(2) have ne: "pendingTimers st \<noteq> []" by auto
  with assms(1) have p: "pendingTimers st = [(the (reconnectTimeout st), RECONNECT_DELAY)]"
    by (auto simp: wellFormed_def)
  with assms(2) show "pendingTimers st = [(t, RECONNECT_DELAY)]" by simp
  from assms(1) p show "openSockets st = []" by (simp add: wellFormed_def)
qed

lemma wellFormed_step:
  assumes "wellFormed st"
  shows "wellFormed (streamStep st ev)"
proof (cases ev)
  case (SocketClosed s)
  show ?thesis
  proof (cases "s \<in> set (openSockets st)")
    case True
    note one = wellFormed_one_socket [OF assms True]
    define st1 where "st1 = st\<lparr>openSockets := removeAll s (openSockets st)\<rparr>"
    have w1: "wellFormed st1" "openSockets st1 = []" "pendingTimers st1 = []"
      using assms one by (simp_all add: st1_def wellFormed_def)
    have "wellFormed (onclose st1)"
      using w1 by (simp add: onclose_def wellFormed_scheduleReconnect)
    then show ?thesis using True SocketClosed by (simp add: st1_def)
  next
    case False
    then show ?thesis using assms SocketClosed by simp
  qed
next
  case (TimerFired t throws)
  show ?thesis
  proof (cases "t \<in> fst ` set (pendingTimers st)")
    case True
    note one = wellFormed_one_timer [OF assms True]
    define st1 where "st1 = st\<lparr>pendingTimers := filter (\<lambda>(h, d). h \<noteq> t) (pendingTimers st)\<rparr>"
    have w1: "wellFormed st1" "openSockets st1 = []" "pendingTimers st1 = []"
      using assms one by (simp_all add: st1_def wellFormed_def)
    have "wellFormed (connect throws st1)"
      using w1 by (rule wellFormed_connect)
    then show ?thesis using True TimerFired by (simp add: st1_def)
  next
    case False
    then show ?thesis using assms TimerFired by simp
  qed
next
  case Unsubscribe
  then show ?thesis using wellFormed_cleanup(1) [OF assms] by simp
qed

lemma wellFormed_run: "wellFormed st \<Longrightarrow> wellFormed (streamRun st evs)"
  unfolding streamRun_def by (induction evs arbitrary: st) (simp_all add: wellFormed_step)

text \<open>Once the flag is cleared nothing sets it again, no socket is constructed and no
  timer is added.\<close>

lemma inactive_step:
  assumes "\<not> active st" "pendingTimers st = []"
  shows "\<not> active (streamStep st ev)" "pendingTimers (streamStep st ev) = []"
    "attempts (streamStep st ev) = attempts st"
  using assms
  by (cases ev; simp add: onclose_def connect_def cleanup_def Let_def split: option.splits)+

lemma inactive_run:
  assumes "\<not> active st" "pendingTimers st = []"
  shows "\<not> active (streamRun st evs) \<and> pendingTimers (streamRun st evs) = []
       \<and> attempts (streamRun st evs) = attempts st"
  using assms unfolding streamRun_def
proof (induction evs arbitrary: st)
  case Nil
  then show ?case by simp
next
  case (Cons ev evs)
  from Cons.IH [OF inactive_step(1,2) [OF Cons.prems]] inactive_step(3) [OF Cons.prems]
  show ?case by simp
qed

text \<open>Only the caller's unsubscribe clears the flag.\<close>

lemma active_step: "active st \<Longrightarrow> ev \<noteq> Unsubscribe \<Longrightarrow> active (streamStep st ev)"
  by (cases ev) (simp_all add: onclose_def connect_def scheduleReconnect_def Let_def)

lemma active_run: "active st \<Longrightarrow> Unsubscribe \<notin> set evs \<Longrightarrow> active (streamRun st evs)"
  unfolding streamRun_def
proof (induction evs arbitrary: st)
  case Nil
  then show ?case by simp
next
  case (Cons ev evs)
  then have "active (streamStep st ev)" by (auto intro: active_step)
  with Cons show ?case by simp
qed

lemma active_subscribe: "active (connect throws (newStream a))"
  by (simp add: connect_def newStream_def scheduleReconnect_def Let_def)

text \<open>A close of the socket of an active session leaves exactly one timer, set for the
  fixed delay, and when that timer fires a socket is constructed.\<close>

lemma close_schedules_reconnect:
  assumes "wellFormed st" "active st" "s \<in> set (openSockets st)"
  shows "pendingTimers (streamStep st (SocketClosed s)) = [(nextHandle st, RECONNECT_DELAY)]"
    and "reconnectTimeout (streamStep st (SocketClosed s)) = Some (nextHandle st)"
    and "attempts (streamStep (streamStep st (SocketClosed s)) (TimerFired (nextHandle st) throws))
           = attempts st + 1"
  using assms wellFormed_one_socket [OF assms(1,3)]
  by (simp_all add: onclose_def scheduleReconnect_def connect_def Let_def)

text \<open>An active session always has exactly one socket or timer outstanding: there is
  always a connection, or a reconnection on its way.\<close>

lemma outstanding_subscribe:
  "length (openSockets (connect throws (newStream a)))
     + length (pendingTimers (connect throws (newStream a))) = 1"
  by (simp add: connect_def newStream_def scheduleReconnect_def Let_def)

lemma outstanding_step:
  assumes "wellFormed st" "active st" "ev \<noteq> Unsubscribe"
    and "length (openSockets st) + length (pendingTimers st) = 1"
  shows "length (openSockets (streamStep st ev)) + length (pendingTimers (streamStep st ev)) = 1"
proof (cases ev)
  case (SocketClosed s)
  show ?thesis
  proof (cases "s \<in> set (openSockets st)")
    case True
    from wellFormed_one_socket [OF assms(1) True] assms(2) show ?thesis
      by (simp add: SocketClosed onclose_def scheduleReconnect_def)
  next
    case False
    then show ?thesis using assms(4) SocketClosed by simp
  qed
next
  case (TimerFired t throws)
  show ?thesis
  proof (cases "t \<in> fst ` set (pendingTimers st)")
    case True
    from wellFormed_one_timer [OF assms(1) True] assms(2) show ?thesis
      by (simp add: TimerFired connect_def scheduleReconnect_def Let_def)
  next
    case False
    then show ?thesis using assms(4) TimerFired by simp
  qed
next
  case Unsubscribe
  with assms(3) show ?thesis by simp
qed

lemma outstanding_run:
  assumes "wellFormed st" "active st" "Unsubscribe \<notin> set evs"
    and "length (openSockets st) + length (pendingTimers st) = 1"
  shows "length (openSockets (streamRun st evs)) + length (pendingTimers (streamRun st evs)) = 1"
  using assms unfolding streamRun_def
proof (induction evs arbitrary: st)
  case Nil
  then show ?case by simp
next
  case (Cons ev evs)
  from Cons.prems have ne: "ev \<noteq> Unsubscribe" and rest: "Unsubscribe \<notin> set evs" by auto
  have "wellFormed (streamStep st ev)" using Cons.prems(1) by (rule wellFormed_step)
  moreover have "active (streamStep st ev)" using Cons.prems(2) ne by (rule active_step)
  moreover have "length (openSockets (streamStep st ev)) + length (pendingTimers (streamStep st ev)) = 1"
    using Cons.prems(1,2) ne Cons.prems(4) by (rule outstanding_step)
  ultimately show ?case using Cons.IH rest by simp
qed

lemma subscribed_wellFormed_active:
  assumes "subscribeToTicker throws symb = Some st0 \<or> st0 = subscribeToUserData throws listenKey"
  shows "wellFormed st0" and "active st0"
  using assms
  by (auto simp: subscribeToTicker_def subscribeToUserData_def wellFormed_subscribe
      active_subscribe split: if_splits)

lemma subscribed_outstanding:
  assumes "subscribeToTicker throws symb = Some st0 \<or> st0 = subscribeToUserData throws listenKey"
  shows "length (openSockets st0) + length (pendingTimers st0) = 1"
  using assms
  by (auto simp: subscribeToTicker_def subscribeToUserData_def outstanding_subscribe
      split: if_splits)

text \<open>
  C9. Take a session of either stream, after any events. Once the caller unsubscribes,
  the flag stays cleared, no timer is pending (the pending one, if any, was cancelled) and
  no socket is ever constructed again, whatever sockets close afterwards. Conversely, as
  long as the caller has not unsubscribed the session is active and has exactly one socket
  or reconnection timer outstanding, and the close of its socket schedules one reconnection
  after the fixed delay of 3000 ms, which constructs a new socket when the timer fires.
\<close>

theorem unsubscribe_is_the_only_stop:
  fixes st0 :: stream and before :: "stream_event list"
  assumes sub: "subscribeToTicker throws symb = Some st0 \<or> st0 = subscribeToUserData throws listenKey"
  defines "st \<equiv> streamRun st0 before"
  shows "\<not> active (streamRun (streamStep st Unsubscribe) later)
       \<and> pendingTimers (streamStep st Unsubscribe) = []
       \<and> pendingTimers (streamRun (streamStep st Unsubscribe) later) = []
       \<and> attempts (streamRun (streamStep st Unsubscribe) later) = attempts st
       \<and> (Unsubscribe \<notin> set before \<longrightarrow>
            active st \<and> length (openSockets st) + length (pendingTimers st) = 1)
       \<and> (active st \<and> s \<in> set (openSockets st) \<longrightarrow>
            pendingTimers (streamStep st (SocketClosed s)) = [(nextHandle st, RECONNECT_DELAY)]
          \<and> attempts (streamStep (streamStep st (SocketClosed s)) (TimerFired (nextHandle st) again))
              = attempts st + 1)"
proof -
  have wf: "wellFormed st"
    unfolding st_def using subscribed_wellFormed_active(1) [OF sub] by (rule wellFormed_run)
  have off: "\<not> active (cleanup st)" "pendingTimers (cleanup st) = []"
    "attempts (cleanup st) = attempts st"
    using cleanup_fields wellFormed_cleanup(2) [OF wf] by simp_all
  from inactive_run [OF off(1,2), of later] off
  have stopped: "\<not> active (streamRun (streamStep st Unsubscribe) later)"
    "pendingTimers (streamStep st Unsubscribe) = []"
    "pendingTimers (streamRun (streamStep st Unsubscribe) later) = []"
    "attempts (streamRun (streamStep st Unsubscribe) later) = attempts st"
    by simp_all
  have alive: "active st \<and> length (openSockets st) + length (pendingTimers st) = 1"
    if "Unsubscribe \<notin> set before"
    unfolding st_def
    using active_run [OF subscribed_wellFormed_active(2) [OF sub] that]
      outstanding_run [OF subscribed_wellFormed_active [OF sub] that subscribed_outstanding [OF sub]]
    by simp
  have again: "pendingTimers (streamStep st (SocketClosed s)) = [(nextHandle st, RECONNECT_DELAY)]
      \<and> attempts (streamStep (streamStep st (SocketClosed s)) (TimerFired (nextHandle st) again))
          = attempts st + 1"
    if "active st" "s \<in> set (openSockets st)"
    using close_schedules_reconnect(1,3) [OF wf that] by simp
  show ?thesis
    using stopped alive again by blast
qed

lemma streamRun_snoc: "streamStep (streamRun st0 xs) ev = streamRun st0 (xs @ [ev])"
  by (simp add: streamRun_def)

lemma streamRun_step: "streamRun (streamStep (streamRun st0 xs) ev) ys = streamRun st0 (xs @ ev # ys)"
  by (simp add: streamRun_def)

lemma streamRun_append: "streamRun (streamRun st0 xs) ys = streamRun st0 (xs @ ys)"
  by (simp add: streamRun_def)

lemmas stream_simps =
  subscribeToUserData_def subscribeToTicker_def newStream_def connect_def onclose_def cleanup_def
  scheduleReconnect_def streamRun_def RECONNECT_DELAY_def Let_def truthy_def

theorem unsubscribe_is_the_only_stop_witness:
  "attempts (streamRun (subscribeToUserData False ''listenKey'') [SocketClosed 1]) = 1
   \<and> pendingTimers (streamRun (subscribeToUserData False ''listenKey'') [SocketClosed 1]) = [(2, 3000)]
   \<and> pendingTimers (streamRun (subscribeToUserData False ''listenKey'')
        [SocketClosed 1, Unsubscribe]) = []
   \<and> attempts (streamRun (subscribeToUserData False ''listenKey'')
        [SocketClosed 1, Unsubscribe, TimerFired 2 False, SocketClosed 1]) = 1
   \<and> attempts (streamRun (subscribeToUserData False ''listenKey'')
        [SocketClosed 1, TimerFired 2 False]) = 2"
proof -
  have sub: "subscribeToTicker False '''' = Some (subscribeToUserData False ''listenKey'')
      \<or> subscribeToUserData False ''listenKey'' = subscribeToUserData False ''listenKey''"
    by simp
  have a: "attempts (streamRun (subscribeToUserData False ''listenKey'') [SocketClosed 1]) = 1"
    and p: "pendingTimers (streamRun (subscribeToUserData False ''listenKey'') [SocketClosed 1]) = [(2, 3000)]"
    and o: "active (subscribeToUserData False ''listenKey'')"
      "1 \<in> set (openSockets (subscribeToUserData False ''listenKey''))"
      "nextHandle (subscribeToUserData False ''listenKey'') = 2"
      "attempts (subscribeToUserData False ''listenKey'') = 1"
    by (simp_all add: stream_simps)
  note t1 = unsubscribe_is_the_only_stop
    [OF sub, where before = "[SocketClosed 1]" and later = "[TimerFired 2 False, SocketClosed 1]",
     unfolded streamRun_step streamRun_snoc streamRun_append, simplified]
  note t2 = unsubscribe_is_the_only_stop
    [OF sub, where before = "[]" and s = 1 and again = False,
     unfolded streamRun_step streamRun_snoc streamRun_append, simplified]
  have stop: "pendingTimers (streamRun (subscribeToUserData False ''listenKey'')
        [SocketClosed 1, Unsubscribe]) = []"
    "attempts (streamRun (subscribeToUserData False ''listenKey'')
        [SocketClosed 1, Unsubscribe, TimerFired 2 False, SocketClosed 1]) = 1"
    using t1 a by simp_all
  have st0: "streamRun (subscribeToUserData False ''listenKey'') [] = subscribeToUserData False ''listenKey''"
    by (simp add: streamRun_def)
  have go: "attempts (streamRun (subscribeToUserData False ''listenKey'')
        [SocketClosed 1, TimerFired 2 False]) = 2"
    using t2 o by (simp add: st0)
  show ?thesis using a p stop go by simp
qed

end
